theory Spec2Isabelle
  imports Main
begin

section \<open>JavaScript values used by the chess engines\<close>

text \<open>
  Strings are modelled as ASCII character lists. A JavaScript number that the engine
  stores in a position is either an integer or \<open>NaN\<close> (the value \<open>Number\<close> gives for
  text that is no numeral). The integers are unbounded here, while the source computes
  in double precision: \<open>js_inc\<close> and \<open>js_dec\<close> are the source's \<open>++\<close> and \<open>--\<close> only
  on integers of absolute value below \<open>2^53\<close>, and a property that rests on them states
  that bound. \<open>null\<close>, \<open>undefined\<close> and array holes are all falsy and the
  source only tests them for truthiness, so one \<open>None\<close> stands for the three.
\<close>

datatype jsnum = Num int | NaN

fun js_inc :: "jsnum \<Rightarrow> jsnum" where
  "js_inc (Num n) = Num (n + 1)"
| "js_inc NaN = NaN"

fun js_dec :: "jsnum \<Rightarrow> jsnum" where
  "js_dec (Num n) = Num (n - 1)"
| "js_dec NaN = NaN"

text \<open>\<open>a % b\<close> for a positive divisor: the sign follows the dividend.\<close>

definition js_mod :: "int \<Rightarrow> int \<Rightarrow> int" where
  "js_mod a b = (if 0 \<le> a then a mod b else - ((- a) mod b))"

definition isDigit :: "char \<Rightarrow> bool" where
  "isDigit c = (48 \<le> (of_char c :: nat) \<and> (of_char c :: nat) \<le> 57)"

definition digitVal :: "char \<Rightarrow> int" where
  "digitVal c = int (of_char c) - 48"

definition digitChar :: "nat \<Rightarrow> char" where
  "digitChar d = char_of (48 + d)"

definition toUpperCase :: "char \<Rightarrow> char" where
  "toUpperCase c = (if 97 \<le> (of_char c :: nat) \<and> (of_char c :: nat) \<le> 122
     then char_of ((of_char c :: nat) - 32) else c)"

definition toLowerCase :: "char \<Rightarrow> char" where
  "toLowerCase c = (if 65 \<le> (of_char c :: nat) \<and> (of_char c :: nat) \<le> 90
     then char_of ((of_char c :: nat) + 32) else c)"

text \<open>\<open>s.split(c)\<close> for a one-character separator: always at least one part.\<close>

fun split_on :: "char \<Rightarrow> string \<Rightarrow> string list" where
  "split_on c [] = [[]]"
| "split_on c (x # xs) =
     (if x = c then [] # split_on c xs
      else (case split_on c xs of [] \<Rightarrow> [[x]] | p # ps \<Rightarrow> (x # p) # ps))"

text \<open>\<open>parts.join(c)\<close>.\<close>

fun join_with :: "char \<Rightarrow> string list \<Rightarrow> string" where
  "join_with c [] = []"
| "join_with c [p] = p"
| "join_with c (p # q # ps) = p @ c # join_with c (q # ps)"

text \<open>\<open>n.toString()\<close> for an integer, and for \<open>NaN\<close>.\<close>

function natToString :: "nat \<Rightarrow> string" where
  "natToString n = (if n < 10 then [digitChar n] else natToString (n div 10) @ [digitChar (n mod 10)])"
  by pat_completeness auto
termination
  by (relation "measure id") auto

declare natToString.simps [simp del]

definition intToString :: "int \<Rightarrow> string" where
  "intToString n = (if n < 0 then CHR ''-'' # natToString (nat (- n)) else natToString (nat n))"

fun numToString :: "jsnum \<Rightarrow> string" where
  "numToString (Num n) = intToString n"
| "numToString NaN = ''NaN''"

text \<open>
  \<open>Number(s)\<close> on text: surrounding white space is dropped; the empty string is 0; an
  optionally signed run of decimal digits is that integer; anything else is \<open>NaN\<close>.
  (Fractions, exponents, radix prefixes and \<open>Infinity\<close> are not integers of the position
  and are read as \<open>NaN\<close> as well; no claim below depends on them.)
\<close>

definition isSpace :: "char \<Rightarrow> bool" where
  "isSpace c = ((of_char c :: nat) = 32 \<or> (9 \<le> (of_char c :: nat) \<and> (of_char c :: nat) \<le> 13))"

definition trim :: "string \<Rightarrow> string" where
  "trim s = rev (dropWhile isSpace (rev (dropWhile isSpace s)))"

fun digitsValue :: "int \<Rightarrow> string \<Rightarrow> int" where
  "digitsValue acc [] = acc"
| "digitsValue acc (c # cs) = digitsValue (acc * 10 + digitVal c) cs"

definition unsignedNumber :: "string \<Rightarrow> jsnum" where
  "unsignedNumber s = (if s \<noteq> [] \<and> list_all isDigit s then Num (digitsValue 0 s) else NaN)"

definition js_Number :: "string \<Rightarrow> jsnum" where
  "js_Number s =
     (case trim s of
        [] \<Rightarrow> Num 0
      | c # cs \<Rightarrow>
          if c = CHR ''-'' then (case unsignedNumber cs of Num n \<Rightarrow> Num (- n) | NaN \<Rightarrow> NaN)
          else if c = CHR ''+'' then unsignedNumber cs
          else unsignedNumber (c # cs))"

section \<open>The flat 64-square engine (chessEngine.ts)\<close>

subsection \<open>Data model\<close>

datatype Color = W | B

text \<open>
  \<open>Piece.type\<close> is a one-character string at run time: the FEN decoder stores whatever
  letter it reads, so the field is a character, not an enumeration of the six letters.
\<close>

record Piece =
  ptype :: char
  pcolor :: Color

record Move =
  m_from :: int
  m_to :: int
  m_piece :: Piece
  m_captured :: "Piece option"
  m_promotion :: "char option"
  m_isEnPassant :: bool
  m_isCastling :: bool

record CastlingRights =
  wks :: bool
  wqs :: bool
  bks :: bool
  bqs :: bool

record HistoryEntry =
  h_move :: Move
  h_castling :: CastlingRights
  h_enPassant :: "jsnum option"
  h_halfmoveClock :: jsnum

record GameState =
  board :: "Piece option list"
  turn :: Color
  castling :: CastlingRights
  enPassant :: "jsnum option"
  halfmoveClock :: jsnum
  fullmoveNumber :: jsnum
  history :: "HistoryEntry list"

datatype error = InvalidFEN | TypeError

definition initialFEN :: string where
  "initialFEN = ''rnbqkbnr/pppppppp/8/8/8/8/PPPPPPPP/RNBQKBNR w KQkq - 0 1''"

definition makeEmptyBoard :: "Piece option list" where
  "makeEmptyBoard = replicate 64 None"

text \<open>
  Reading an array outside its elements gives \<open>undefined\<close>. Writing at an index at or
  beyond the length extends the array, the gap being holes. A write at a negative index
  would store a property that is no element; no generated move and no FEN row does
  that, and the model leaves the list as it is.
\<close>

definition board_get :: "Piece option list \<Rightarrow> int \<Rightarrow> Piece option" where
  "board_get b i = (if 0 \<le> i \<and> i < int (length b) then b ! nat i else None)"

definition board_set :: "Piece option list \<Rightarrow> int \<Rightarrow> Piece option \<Rightarrow> Piece option list" where
  "board_set b i v =
     (if i < 0 then b
      else if i < int (length b) then b[nat i := v]
      else b @ replicate (nat i - length b) None @ [v])"

definition opposite :: "Color \<Rightarrow> Color" where
  "opposite c = (if c = W then B else W)"

definition onBoard :: "int \<Rightarrow> bool" where
  "onBoard sq = (0 \<le> sq \<and> sq < 64)"

definition fileOf :: "int \<Rightarrow> int" where
  "fileOf sq = js_mod sq 8"

definition rankOf :: "int \<Rightarrow> int" where
  "rankOf sq = sq div 8"

subsection \<open>Algebraic square names\<close>

definition fileLetter :: "int \<Rightarrow> string" where
  "fileLetter f = (if 0 \<le> f \<and> f < 8 then [''abcdefgh'' ! nat f] else ''undefined'')"

fun squareToAlgebraic :: "jsnum \<Rightarrow> string" where
  "squareToAlgebraic (Num sq) = fileLetter (js_mod sq 8) @ intToString (sq div 8 + 1)"
| "squareToAlgebraic NaN = ''undefined'' @ ''NaN''"

fun indexOf :: "string \<Rightarrow> char \<Rightarrow> int" where
  "indexOf [] c = -1"
| "indexOf (x # xs) c = (if x = c then 0 else (let i = indexOf xs c in if i < 0 then -1 else i + 1))"

text \<open>
  \<open>s[0]\<close> and \<open>s[1]\<close> are \<open>undefined\<close> on a shorter string: \<open>indexOf(undefined)\<close> is
  \<open>-1\<close> and \<open>Number(undefined)\<close> is \<open>NaN\<close>.
\<close>

definition algebraicToSquare :: "string \<Rightarrow> jsnum" where
  "algebraicToSquare s =
     (let file = (case s of [] \<Rightarrow> -1 | c # _ \<Rightarrow> indexOf ''abcdefgh'' c);
          rank = (case s of _ # d # _ \<Rightarrow> js_Number [d] | _ \<Rightarrow> NaN)
      in case rank of Num r \<Rightarrow> Num ((r - 1) * 8 + file) | NaN \<Rightarrow> NaN)"

subsection \<open>FEN decoding and encoding\<close>

text \<open>The inner loop of \<open>fenToGameState\<close> over the characters of one rank.\<close>

fun fenRow :: "int \<Rightarrow> string \<Rightarrow> int \<Rightarrow> Piece option list \<Rightarrow> Piece option list" where
  "fenRow r [] file b = b"
| "fenRow r (ch # rest) file b =
     (if isDigit ch then fenRow r rest (file + digitVal ch) b
      else fenRow r rest (file + 1)
             (board_set b (r * 8 + file)
                (Some \<lparr>ptype = toLowerCase ch, pcolor = (if ch = toUpperCase ch then W else B)\<rparr>)))"

text \<open>The outer loop, \<open>r\<close> from 0 to 7, reading \<open>rows[7 - r]\<close>.\<close>

fun fenRows :: "string list \<Rightarrow> int list \<Rightarrow> Piece option list \<Rightarrow> Piece option list" where
  "fenRows rows [] b = b"
| "fenRows rows (r # rs) b = fenRows rows rs (fenRow r (rows ! nat (7 - r)) 0 b)"

text \<open>
  \<open>fenToGameState\<close> throws \<open>Error('Invalid FEN')\<close> on fewer than four fields. With
  fewer than eight ranks \<open>rows[7]\<close> is \<open>undefined\<close> and the \<open>for ... of\<close> over it
  raises a \<open>TypeError\<close> in the first round of the loop. Nothing else is checked.
\<close>

definition fenToGameState :: "string \<Rightarrow> error + GameState" where
  "fenToGameState fen =
     (let parts = split_on CHR '' '' fen in
      if length parts < 4 then Inl InvalidFEN
      else
        let rows = split_on CHR ''/'' (parts ! 0) in
        if length rows < 8 then Inl TypeError
        else
          let b = fenRows rows [0, 1, 2, 3, 4, 5, 6, 7] makeEmptyBoard;
              t = (if parts ! 1 = ''w'' then W else B);
              c = \<lparr>wks = CHR ''K'' \<in> set (parts ! 2), wqs = CHR ''Q'' \<in> set (parts ! 2),
                   bks = CHR ''k'' \<in> set (parts ! 2), bqs = CHR ''q'' \<in> set (parts ! 2)\<rparr>;
              ep = (if parts ! 3 = ''-'' then None else Some (algebraicToSquare (parts ! 3)));
              hm = (if length parts < 5 \<or> parts ! 4 = [] then Num 0 else js_Number (parts ! 4));
              fm = (if length parts < 6 \<or> parts ! 5 = [] then Num 1 else js_Number (parts ! 5))
          in Inr \<lparr>board = b, turn = t, castling = c, enPassant = ep,
                  halfmoveClock = hm, fullmoveNumber = fm, history = []\<rparr>)"

text \<open>One rank of \<open>gameStateToFEN\<close>: the loop over the files, then the trailing count.\<close>

fun fenRankLoop :: "Piece option list \<Rightarrow> int \<Rightarrow> int list \<Rightarrow> string \<Rightarrow> int \<Rightarrow> string" where
  "fenRankLoop b r [] row emp = (if emp \<noteq> 0 then row @ intToString emp else row)"
| "fenRankLoop b r (f # fs) row emp =
     (case board_get b (r * 8 + f) of
        None \<Rightarrow> fenRankLoop b r fs row (emp + 1)
      | Some p \<Rightarrow>
          fenRankLoop b r fs
            ((if emp \<noteq> 0 then row @ intToString emp else row)
               @ [if pcolor p = W then toUpperCase (ptype p) else toLowerCase (ptype p)])
            0)"

definition gameStateToFEN :: "GameState \<Rightarrow> string" where
  "gameStateToFEN gs =
     (let rows = map (\<lambda>r. fenRankLoop (board gs) r [0, 1, 2, 3, 4, 5, 6, 7] [] 0)
                   [7, 6, 5, 4, 3, 2, 1, 0];
          boardPart = join_with CHR ''/'' rows;
          turnPart = (if turn gs = W then ''w'' else ''b'');
          castlePart0 = (if wks (castling gs) then ''K'' else [])
                      @ (if wqs (castling gs) then ''Q'' else [])
                      @ (if bks (castling gs) then ''k'' else [])
                      @ (if bqs (castling gs) then ''q'' else []);
          castlePart = (if castlePart0 = [] then ''-'' else castlePart0);
          epPart = (case enPassant gs of None \<Rightarrow> ''-'' | Some sq \<Rightarrow> squareToAlgebraic sq)
      in boardPart @ '' '' @ turnPart @ '' '' @ castlePart @ '' '' @ epPart
         @ '' '' @ numToString (halfmoveClock gs) @ '' '' @ numToString (fullmoveNumber gs))"

subsection \<open>Pseudo-legal move generation\<close>

text \<open>
  A field that a move literal of the source leaves out is \<open>undefined\<close>: \<open>None\<close> for
  \<open>captured\<close> and \<open>promotion\<close>, \<open>False\<close> for the two flags.
\<close>

definition plainMove :: "int \<Rightarrow> int \<Rightarrow> Piece \<Rightarrow> Piece option \<Rightarrow> Move" where
  "plainMove sq t p cap =
     \<lparr>m_from = sq, m_to = t, m_piece = p, m_captured = cap, m_promotion = None,
      m_isEnPassant = False, m_isCastling = False\<rparr>"

definition promotionMoves :: "int \<Rightarrow> int \<Rightarrow> Piece \<Rightarrow> Piece option \<Rightarrow> Move list" where
  "promotionMoves sq t p cap =
     map (\<lambda>pr. (plainMove sq t p cap)\<lparr>m_promotion := Some pr\<rparr>) ''qrbn''"

definition isEnemy :: "Piece option \<Rightarrow> Piece \<Rightarrow> bool" where
  "isEnemy target p = (case target of None \<Rightarrow> False | Some t \<Rightarrow> pcolor t \<noteq> pcolor p)"

text \<open>One round of the loop over \<open>caps\<close> in \<open>generatePawnMoves\<close>.\<close>

definition pawnCapture :: "GameState \<Rightarrow> int \<Rightarrow> Piece \<Rightarrow> int \<Rightarrow> Move list" where
  "pawnCapture gs sq p d =
     (let promotionRank = (if pcolor p = W then 7 else 0);
          t = sq + d
      in if \<not> onBoard t then []
         else if \<bar>fileOf t - fileOf sq\<bar> \<noteq> 1 then []
         else
           let target = board_get (board gs) t in
           if isEnemy target p then
             (if rankOf t = promotionRank then promotionMoves sq t p target
              else [plainMove sq t p target])
           else if enPassant gs \<noteq> None \<and> enPassant gs = Some (Num t) then
             (let capSq = (if pcolor p = W then t - 8 else t + 8);
                  capPiece = board_get (board gs) capSq
              in case capPiece of
                   None \<Rightarrow> []
                 | Some c \<Rightarrow>
                     if ptype c = CHR ''p'' \<and> pcolor c \<noteq> pcolor p
                     then [(plainMove sq t p capPiece)\<lparr>m_isEnPassant := True\<rparr>]
                     else [])
           else [])"

definition generatePawnMoves :: "GameState \<Rightarrow> int \<Rightarrow> Piece \<Rightarrow> Move list" where
  "generatePawnMoves gs sq p =
     (let dir = (if pcolor p = W then 8 else -8);
          startRank = (if pcolor p = W then 1 else 6);
          promotionRank = (if pcolor p = W then 7 else 0);
          one = sq + dir;
          pushes =
            (if onBoard one \<and> board_get (board gs) one = None then
               (if rankOf one = promotionRank then promotionMoves sq one p None
                else plainMove sq one p None #
                  (if rankOf sq = startRank then
                     (let two = sq + 2 * dir in
                      if onBoard two \<and> board_get (board gs) two = None
                      then [plainMove sq two p None] else [])
                   else []))
             else []);
          caps = (if pcolor p = W then [7, 9] else [-7, -9])
      in pushes @ concat (map (pawnCapture gs sq p) caps))"

text \<open>One round of the loop over the offsets of a knight or a king.\<close>

definition stepMove :: "GameState \<Rightarrow> int \<Rightarrow> Piece \<Rightarrow> int \<Rightarrow> int \<Rightarrow> Move list" where
  "stepMove gs sq p reach d =
     (let t = sq + d in
      if \<not> onBoard t then []
      else if \<bar>fileOf sq - fileOf t\<bar> > reach then []
      else
        let target = board_get (board gs) t in
        if target = None \<or> isEnemy target p then [plainMove sq t p target] else [])"

definition generateKnightMoves :: "GameState \<Rightarrow> int \<Rightarrow> Piece \<Rightarrow> Move list" where
  "generateKnightMoves gs sq p =
     concat (map (stepMove gs sq p 2) [17, 15, 10, 6, -6, -10, -15, -17])"

text \<open>
  The direction names \<open>'n'\<close>, \<open>'s'\<close>, \<open>'e'\<close>, \<open>'w'\<close>, \<open>'ne'\<close>, \<open>'nw'\<close>, \<open>'se'\<close>, \<open>'sw'\<close>
  and the table \<open>dirVals\<close>.
\<close>

datatype Dir = dN | dS | dE | dW | dNE | dNW | dSE | dSW

fun dirVals :: "Dir \<Rightarrow> int" where
  "dirVals dN = 8"
| "dirVals dS = -8"
| "dirVals dE = 1"
| "dirVals dW = -1"
| "dirVals dNE = 9"
| "dirVals dNW = 7"
| "dirVals dSE = -7"
| "dirVals dSW = -9"

text \<open>
  The \<open>while (onBoard(to))\<close> loop of \<open>generateSlidingMoves\<close> for one direction. Both
  branches of the wrap test of the source compare the same two files, so every
  direction but north and south is tested.
\<close>

function slideLoop :: "GameState \<Rightarrow> int \<Rightarrow> Piece \<Rightarrow> Dir \<Rightarrow> int \<Rightarrow> int \<Rightarrow> Move list" where
  "slideLoop gs sq p dir t lastFile =
     (if \<not> onBoard t then []
      else
        let currentFile = fileOf t in
        if dir \<noteq> dN \<and> dir \<noteq> dS \<and> \<bar>currentFile - lastFile\<bar> \<noteq> 1 then []
        else
          (case board_get (board gs) t of
             None \<Rightarrow> plainMove sq t p None # slideLoop gs sq p dir (t + dirVals dir) currentFile
           | Some target \<Rightarrow>
               if pcolor target \<noteq> pcolor p then [plainMove sq t p (Some target)] else []))"
  by pat_completeness auto
termination
proof (relation "measure (\<lambda>(gs, sq, p, dir, t, lastFile).
         if 0 < dirVals dir then nat (64 - t) else nat (t + 1))", goal_cases)
  case 1
  show ?case by simp
next
  case (2 gs sq p dir t lastFile x)
  then show ?case by (cases dir) (auto simp: onBoard_def)
qed

declare slideLoop.simps [simp del]

definition generateSlidingMoves :: "GameState \<Rightarrow> int \<Rightarrow> Piece \<Rightarrow> Dir list \<Rightarrow> Move list" where
  "generateSlidingMoves gs sq p dirs =
     concat (map (\<lambda>dir. slideLoop gs sq p dir (sq + dirVals dir) (fileOf sq)) dirs)"

definition castleMove :: "int \<Rightarrow> int \<Rightarrow> Piece \<Rightarrow> Move" where
  "castleMove sq t p = (plainMove sq t p None)\<lparr>m_isCastling := True\<rparr>"

definition generateKingMoves :: "GameState \<Rightarrow> int \<Rightarrow> Piece \<Rightarrow> Move list" where
  "generateKingMoves gs sq p =
     (let b = board gs; c = castling gs in
      concat (map (stepMove gs sq p 1) [1, -1, 8, -8, 9, 7, -7, -9])
      @ (if pcolor p = W then
           (if wks c \<and> board_get b 5 = None \<and> board_get b 6 = None
            then [castleMove sq 6 p] else [])
           @ (if wqs c \<and> board_get b 1 = None \<and> board_get b 2 = None \<and> board_get b 3 = None
              then [castleMove sq 2 p] else [])
         else
           (if bks c \<and> board_get b 61 = None \<and> board_get b 62 = None
            then [castleMove sq 62 p] else [])
           @ (if bqs c \<and> board_get b 57 = None \<and> board_get b 58 = None \<and> board_get b 59 = None
              then [castleMove sq 58 p] else [])))"

text \<open>One round of the loop over the squares in \<open>generatePseudoLegalMoves\<close>.\<close>

definition pieceMoves :: "GameState \<Rightarrow> int \<Rightarrow> Move list" where
  "pieceMoves gs sq =
     (case board_get (board gs) sq of
        None \<Rightarrow> []
      | Some p \<Rightarrow>
          if pcolor p \<noteq> turn gs then []
          else if ptype p = CHR ''p'' then generatePawnMoves gs sq p
          else if ptype p = CHR ''n'' then generateKnightMoves gs sq p
          else if ptype p = CHR ''b'' then generateSlidingMoves gs sq p [dNE, dNW, dSE, dSW]
          else if ptype p = CHR ''r'' then generateSlidingMoves gs sq p [dN, dS, dE, dW]
          else if ptype p = CHR ''q'' then
            generateSlidingMoves gs sq p [dN, dS, dE, dW, dNE, dNW, dSE, dSW]
          else if ptype p = CHR ''k'' then generateKingMoves gs sq p
          else [])"

definition generatePseudoLegalMoves :: "GameState \<Rightarrow> Move list" where
  "generatePseudoLegalMoves gs = concat (map (pieceMoves gs) [0..63])"

subsection \<open>Applying and undoing a move\<close>

text \<open>The four tests on a rook's home square, in the order of the source.\<close>

definition clearRookRight :: "CastlingRights \<Rightarrow> int \<Rightarrow> CastlingRights" where
  "clearRookRight c sq =
     (let c1 = (if sq = 0 then c\<lparr>wqs := False\<rparr> else c);
          c2 = (if sq = 7 then c1\<lparr>wks := False\<rparr> else c1);
          c3 = (if sq = 56 then c2\<lparr>bqs := False\<rparr> else c2)
      in if sq = 63 then c3\<lparr>bks := False\<rparr> else c3)"

text \<open>
  \<open>makeMove\<close> mutates the position and the move it is given (it overwrites
  \<open>move.captured\<close>); the model returns both. The history entry holds the same move
  object, so it carries the overwritten \<open>captured\<close> field.
\<close>

definition makeMove :: "GameState \<Rightarrow> Move \<Rightarrow> GameState \<times> Move" where
  "makeMove gs move =
     (let frm = m_from move; t = m_to move; piece = m_piece move;
          capSq = (if pcolor piece = W then t - 8 else t + 8);
          cap = (if m_isEnPassant move then board_get (board gs) capSq
                 else board_get (board gs) t);
          move' = move\<lparr>m_captured := cap\<rparr>;
          entry = \<lparr>h_move = move', h_castling = castling gs, h_enPassant = enPassant gs,
                   h_halfmoveClock = halfmoveClock gs\<rparr>;
          b1 = (if m_isEnPassant move then board_set (board gs) capSq None else board gs);
          b2 = board_set b1 t
                 (Some (case m_promotion move of
                          Some pr \<Rightarrow> \<lparr>ptype = pr, pcolor = pcolor piece\<rparr>
                        | None \<Rightarrow> piece));
          b3 = board_set b2 frm None;
          c1 = (if ptype piece = CHR ''k'' then
                  (if pcolor piece = W then (castling gs)\<lparr>wks := False, wqs := False\<rparr>
                   else (castling gs)\<lparr>bks := False, bqs := False\<rparr>)
                else castling gs);
          b4 = (if ptype piece = CHR ''k'' \<and> m_isCastling move then
                  (if t = 6 then board_set (board_set b3 5 (board_get b3 7)) 7 None
                   else if t = 2 then board_set (board_set b3 3 (board_get b3 0)) 0 None
                   else if t = 62 then board_set (board_set b3 61 (board_get b3 63)) 63 None
                   else if t = 58 then board_set (board_set b3 59 (board_get b3 56)) 56 None
                   else b3)
                else b3);
          c2 = (if ptype piece = CHR ''r'' then clearRookRight c1 frm else c1);
          c3 = (case cap of
                  None \<Rightarrow> c2
                | Some cp \<Rightarrow> if ptype cp = CHR ''r'' then clearRookRight c2 t else c2);
          ep = (if ptype piece = CHR ''p'' \<and> \<bar>t - frm\<bar> = 16
                then Some (Num ((frm + t) div 2)) else None);
          hm = (if ptype piece = CHR ''p'' \<or> cap \<noteq> None then Num 0
                else js_inc (halfmoveClock gs));
          fm = (if turn gs = B then js_inc (fullmoveNumber gs) else fullmoveNumber gs)
      in (\<lparr>board = b4, turn = (if turn gs = W then B else W), castling = c3,
           enPassant = ep, halfmoveClock = hm, fullmoveNumber = fm,
           history = history gs @ [entry]\<rparr>, move'))"

text \<open>\<open>history.pop()\<close> on an empty array gives \<open>undefined\<close> and \<open>undoMove\<close> returns.\<close>

definition undoMove :: "GameState \<Rightarrow> GameState" where
  "undoMove gs =
     (if history gs = [] then gs
      else
        let lst = last (history gs);
            move = h_move lst;
            t = (if turn gs = W then B else W);
            fm = (if t = B then js_dec (fullmoveNumber gs) else fullmoveNumber gs);
            b1 = board_set (board gs) (m_from move) (Some (m_piece move));
            capSq = (if pcolor (m_piece move) = W then m_to move - 8 else m_to move + 8);
            b2 = (if m_isEnPassant move
                  then board_set (board_set b1 capSq (m_captured move)) (m_to move) None
                  else board_set b1 (m_to move) (m_captured move));
            b3 = (if m_isCastling move then
                    (let r1 = (if m_to move = 6
                               then board_set (board_set b2 7 (board_get b2 5)) 5 None else b2);
                         r2 = (if m_to move = 2
                               then board_set (board_set r1 0 (board_get r1 3)) 3 None else r1);
                         r3 = (if m_to move = 62
                               then board_set (board_set r2 63 (board_get r2 61)) 61 None else r2)
                     in if m_to move = 58
                        then board_set (board_set r3 56 (board_get r3 59)) 59 None else r3)
                  else b2)
        in \<lparr>board = b3, turn = t, castling = h_castling lst, enPassant = h_enPassant lst,
            halfmoveClock = h_halfmoveClock lst, fullmoveNumber = fm,
            history = butlast (history gs)\<rparr>)"

subsection \<open>Check detection\<close>

definition holds :: "Piece option \<Rightarrow> char \<Rightarrow> Color \<Rightarrow> bool" where
  "holds sqr ty c = (case sqr of None \<Rightarrow> False | Some p \<Rightarrow> ptype p = ty \<and> pcolor p = c)"

definition pawnAttacks :: "GameState \<Rightarrow> int \<Rightarrow> Color \<Rightarrow> int \<Rightarrow> bool" where
  "pawnAttacks gs sq byColor frm =
     (onBoard frm \<and> \<bar>fileOf sq - fileOf frm\<bar> = 1 \<and> holds (board_get (board gs) frm) CHR ''p'' byColor)"

definition stepAttacks :: "GameState \<Rightarrow> int \<Rightarrow> Color \<Rightarrow> char \<Rightarrow> int \<Rightarrow> int \<Rightarrow> bool" where
  "stepAttacks gs sq byColor ty reach d =
     (let frm = sq + d in
      onBoard frm \<and> \<not> \<bar>fileOf sq - fileOf frm\<bar> > reach \<and> holds (board_get (board gs) frm) ty byColor)"

text \<open>
  The \<open>while (onBoard(from))\<close> loop of \<open>isSquareAttacked\<close> for one entry of \<open>dirs\<close>.
  The eight offsets of that table are the eight values of \<open>dirVals\<close>, and the entry is
  given by its direction. \<open>True\<close> is the \<open>return true\<close> of the source, \<open>False\<close> is
  leaving the loop.
\<close>

function attackRay :: "GameState \<Rightarrow> Color \<Rightarrow> Dir \<Rightarrow> char \<Rightarrow> int \<Rightarrow> bool" where
  "attackRay gs byColor dir ty frm =
     (if \<not> onBoard frm then False
      else
        let prev = frm - dirVals dir;
            fileDiff = \<bar>fileOf frm - fileOf prev\<bar>;
            rankDiff = \<bar>rankOf frm - rankOf prev\<bar>
        in if fileDiff > 1 \<or> rankDiff > 1 then False
           else
             (case board_get (board gs) frm of
                Some p \<Rightarrow> pcolor p = byColor \<and> (ptype p = ty \<or> ptype p = CHR ''q'')
              | None \<Rightarrow> attackRay gs byColor dir ty (frm + dirVals dir)))"
  by pat_completeness auto
termination
proof (relation "measure (\<lambda>(gs, byColor, dir, ty, frm).
         if 0 < dirVals dir then nat (64 - frm) else nat (frm + 1))", goal_cases)
  case 1
  show ?case by simp
next
  case (2 gs byColor dir ty frm x xa xb)
  then show ?case by (cases dir) (auto simp: onBoard_def)
qed

declare attackRay.simps [simp del]

definition isSquareAttacked :: "GameState \<Rightarrow> int \<Rightarrow> Color \<Rightarrow> bool" where
  "isSquareAttacked gs sq byColor =
     (list_ex (pawnAttacks gs sq byColor) (if byColor = W then [sq - 7, sq - 9] else [sq + 7, sq + 9])
      \<or> list_ex (stepAttacks gs sq byColor CHR ''n'' 2) [17, 15, 10, 6, -6, -10, -15, -17]
      \<or> list_ex (\<lambda>(dir, ty). attackRay gs byColor dir ty (sq + dirVals dir))
           [(dN, CHR ''r''), (dS, CHR ''r''), (dE, CHR ''r''), (dW, CHR ''r''),
            (dNE, CHR ''b''), (dNW, CHR ''b''), (dSE, CHR ''b''), (dSW, CHR ''b'')]
      \<or> list_ex (stepAttacks gs sq byColor CHR ''k'' 1) [1, -1, 8, -8, 9, 7, -7, -9])"

definition findKingSquare :: "GameState \<Rightarrow> Color \<Rightarrow> int option" where
  "findKingSquare gs c = find (\<lambda>i. holds (board_get (board gs) i) CHR ''k'' c) [0..63]"

definition inCheck :: "GameState \<Rightarrow> Color \<Rightarrow> bool" where
  "inCheck gs c =
     (case findKingSquare gs c of
        None \<Rightarrow> False
      | Some kingSq \<Rightarrow> isSquareAttacked gs kingSq (if c = W then B else W))"

subsection \<open>Legal moves and game status\<close>

definition castlePath :: "int \<Rightarrow> int list" where
  "castlePath t = (if t = 6 then [4, 5, 6] else if t = 2 then [4, 3, 2]
                   else if t = 62 then [60, 61, 62] else [60, 59, 58])"

text \<open>
  One round of the loop of \<open>generateLegalMoves\<close>. The clone of the position is the
  position itself here; the move pushed on \<open>legal\<close> is the object \<open>makeMove\<close> has
  written to.
\<close>

definition legalStep :: "GameState \<Rightarrow> Move \<Rightarrow> Move list" where
  "legalStep gs mv =
     (let enemy = (if turn gs = W then B else W) in
      if m_isCastling mv \<and> list_ex (\<lambda>sq. isSquareAttacked gs sq enemy) (castlePath (m_to mv))
      then []
      else
        let (snapshot, mv') = makeMove gs mv in
        if \<not> inCheck snapshot (turn gs) then [mv'] else [])"

definition generateLegalMoves :: "GameState \<Rightarrow> Move list" where
  "generateLegalMoves gs = concat (map (legalStep gs) (generatePseudoLegalMoves gs))"

record Status =
  st_check :: bool
  st_checkmate :: bool
  st_stalemate :: bool
  st_draw :: bool

definition gameStatus :: "GameState \<Rightarrow> Status" where
  "gameStatus gs =
     (let legal = generateLegalMoves gs; chk = inCheck gs (turn gs) in
      if length legal = 0 then
        (if chk then \<lparr>st_check = True, st_checkmate = True, st_stalemate = False, st_draw = False\<rparr>
         else \<lparr>st_check = False, st_checkmate = False, st_stalemate = True, st_draw = True\<rparr>)
      else \<lparr>st_check = chk, st_checkmate = False, st_stalemate = False, st_draw = False\<rparr>)"

section \<open>The search worker (aiWorker.ts)\<close>

text \<open>
  Search values are JavaScript numbers: integers, the two infinities, and \<open>NaN\<close>
  (which \<open>evaluate\<close> yields when a piece letter has no entry in \<open>pieceValues\<close>).
  Every comparison with \<open>NaN\<close> is false; \<open>Math.max\<close> and \<open>Math.min\<close> of \<open>NaN\<close>
  are \<open>NaN\<close>.
\<close>

datatype score = NegInf | Fin int | PosInf | ScoreNaN

fun score_lt :: "score \<Rightarrow> score \<Rightarrow> bool" where
  "score_lt ScoreNaN _ = False"
| "score_lt _ ScoreNaN = False"
| "score_lt NegInf NegInf = False"
| "score_lt NegInf _ = True"
| "score_lt (Fin a) (Fin b) = (a < b)"
| "score_lt (Fin a) PosInf = True"
| "score_lt (Fin a) NegInf = False"
| "score_lt PosInf _ = False"

definition score_le :: "score \<Rightarrow> score \<Rightarrow> bool" where
  "score_le a b = (a \<noteq> ScoreNaN \<and> b \<noteq> ScoreNaN \<and> (a = b \<or> score_lt a b))"

definition score_max :: "score \<Rightarrow> score \<Rightarrow> score" where
  "score_max a b = (if a = ScoreNaN \<or> b = ScoreNaN then ScoreNaN else if score_lt a b then b else a)"

definition score_min :: "score \<Rightarrow> score \<Rightarrow> score" where
  "score_min a b = (if a = ScoreNaN \<or> b = ScoreNaN then ScoreNaN else if score_lt b a then b else a)"

definition pieceValues :: "char \<Rightarrow> int option" where
  "pieceValues c =
     (if c = CHR ''p'' then Some 100 else if c = CHR ''n'' then Some 320
      else if c = CHR ''b'' then Some 330 else if c = CHR ''r'' then Some 500
      else if c = CHR ''q'' then Some 900 else if c = CHR ''k'' then Some 20000 else None)"

fun evaluateLoop :: "Piece option list \<Rightarrow> score \<Rightarrow> score" where
  "evaluateLoop [] sc = sc"
| "evaluateLoop (None # ps) sc = evaluateLoop ps sc"
| "evaluateLoop (Some p # ps) sc =
     evaluateLoop ps
       (case (sc, pieceValues (ptype p)) of
          (Fin s, Some v) \<Rightarrow> Fin (if pcolor p = W then s + v else s - v)
        | _ \<Rightarrow> ScoreNaN)"

definition evaluate :: "GameState \<Rightarrow> score" where
  "evaluate gs = evaluateLoop (board gs) (Fin 0)"

text \<open>
  \<open>moves.sort\<close> with the comparator of the source: a stable sort that puts the moves
  with a truthy \<open>captured\<close> first.
\<close>

definition sortMoves :: "Move list \<Rightarrow> Move list" where
  "sortMoves ms = filter (\<lambda>m. m_captured m \<noteq> None) ms @ filter (\<lambda>m. m_captured m = None) ms"

text \<open>
  \<open>minimax\<close> works on one position object, which it changes with \<open>makeMove\<close> and
  restores with \<open>undoMove\<close>; the model returns the position next to the value. The
  depth is a natural number. \<open>maxLoop\<close> and \<open>minLoop\<close> are the two \<open>for\<close> loops with
  their \<open>break\<close>.
\<close>

function minimax :: "GameState \<Rightarrow> nat \<Rightarrow> score \<Rightarrow> score \<Rightarrow> bool \<Rightarrow> score \<times> GameState"
  and maxLoop :: "GameState \<Rightarrow> nat \<Rightarrow> score \<Rightarrow> score \<Rightarrow> score \<Rightarrow> Move list \<Rightarrow> score \<times> GameState"
  and minLoop :: "GameState \<Rightarrow> nat \<Rightarrow> score \<Rightarrow> score \<Rightarrow> score \<Rightarrow> Move list \<Rightarrow> score \<times> GameState"
where
  "minimax gs depth alpha beta isMaximizing =
     (let status = gameStatus gs in
      if st_checkmate status then (if isMaximizing then NegInf else PosInf, gs)
      else if st_stalemate status \<or> st_draw status then (Fin 0, gs)
      else
        (case depth of
           0 \<Rightarrow> (evaluate gs, gs)
         | Suc d \<Rightarrow>
             let moves = sortMoves (generateLegalMoves gs) in
             if isMaximizing then maxLoop gs d alpha beta NegInf moves
             else minLoop gs d alpha beta PosInf moves))"
| "maxLoop gs d alpha beta maxEval [] = (maxEval, gs)"
| "maxLoop gs d alpha beta maxEval (move # rest) =
     (let gs1 = fst (makeMove gs move);
          r = minimax gs1 d alpha beta False;
          gs3 = undoMove (snd r);
          maxEval' = score_max maxEval (fst r);
          alpha' = score_max alpha (fst r)
      in if score_le beta alpha' then (maxEval', gs3)
         else maxLoop gs3 d alpha' beta maxEval' rest)"
| "minLoop gs d alpha beta minEval [] = (minEval, gs)"
| "minLoop gs d alpha beta minEval (move # rest) =
     (let gs1 = fst (makeMove gs move);
          r = minimax gs1 d alpha beta True;
          gs3 = undoMove (snd r);
          minEval' = score_min minEval (fst r);
          beta' = score_min beta (fst r)
      in if score_le beta' alpha then (minEval', gs3)
         else minLoop gs3 d alpha beta' minEval' rest)"
  by pat_completeness auto
termination
  by (relation "inv_image (less_than <*lex*> less_than)
        (\<lambda>x. case x of
           Inl (gs, depth, alpha, beta, isMaximizing) \<Rightarrow> (depth, 0)
         | Inr (Inl (gs, d, alpha, beta, maxEval, moves)) \<Rightarrow> (d, Suc (length moves))
         | Inr (Inr (gs, d, alpha, beta, minEval, moves)) \<Rightarrow> (d, Suc (length moves)))")
     auto

text \<open>
  The root loop of \<open>onmessage\<close>. Each round decodes the FEN again and applies the move
  to that fresh position; \<open>bestMove\<close> is the move object \<open>makeMove\<close> has written to.
\<close>

fun rootLoop :: "string \<Rightarrow> nat \<Rightarrow> bool \<Rightarrow> Move option \<Rightarrow> score \<Rightarrow> Move list \<Rightarrow> error + Move option" where
  "rootLoop fen d isMaximizing bestMove bestValue [] = Inr bestMove"
| "rootLoop fen d isMaximizing bestMove bestValue (move # rest) =
     (case fenToGameState fen of
        Inl e \<Rightarrow> Inl e
      | Inr tempState \<Rightarrow>
          let (tempState', move') = makeMove tempState move;
              val = fst (minimax tempState' d NegInf PosInf (\<not> isMaximizing))
          in if isMaximizing then
               (if score_lt bestValue val then rootLoop fen d isMaximizing (Some move') val rest
                else rootLoop fen d isMaximizing bestMove bestValue rest)
             else
               (if score_lt val bestValue then rootLoop fen d isMaximizing (Some move') val rest
                else rootLoop fen d isMaximizing bestMove bestValue rest))"

text \<open>
  The message handler: the posted \<open>bestMove\<close>, or the exception of the FEN decoder.
  The depth is \<open>Suc d\<close>, a positive integer; the search below the root runs at \<open>d\<close>.
\<close>

fun onmessage :: "string \<Rightarrow> nat \<Rightarrow> Color \<Rightarrow> error + Move option" where
  "onmessage fen (Suc d) color =
     (case fenToGameState fen of
        Inl e \<Rightarrow> Inl e
      | Inr gs \<Rightarrow>
          let moves = generateLegalMoves gs in
          if length moves = 0 then Inr None
          else rootLoop fen d (color = W) None (if color = W then NegInf else PosInf) moves)"

section \<open>The coordinate engine of the game server (class ChessGame)\<close>

text \<open>
  The methods of the class carry the prefix \<open>cg_\<close> where the flat engine has a
  function of the same name. The board is an array of eight rows of eight squares,
  \<open>board[y][x]\<close>, row 0 being rank 8. A piece identifier stands for the string
  \<open>uuidv4()\<close> returns; the engine never compares identifiers.
\<close>

subsection \<open>Data model\<close>

datatype ChessColor = white | black

datatype ChessPieceType = king | queen | rook | bishop | knight | pawn

record ChessPiece =
  cp_id :: nat
  cp_type :: ChessPieceType
  cp_color :: ChessColor
  cp_hasMoved :: bool

record ChessCoord =
  cx :: int
  cy :: int

datatype CastleSide = kingSide | queenSide

record ChessMove =
  cm_from :: ChessCoord
  cm_to :: ChessCoord
  cm_pieceId :: nat
  cm_capture :: "ChessPiece option"
  cm_promotion :: "ChessPieceType option"
  cm_isEnPassant :: bool
  cm_isCastle :: "CastleSide option"

record ChessCastlingRights =
  whiteKingSide :: bool
  whiteQueenSide :: bool
  blackKingSide :: bool
  blackQueenSide :: bool

record Players =
  pl_white :: string
  pl_black :: string

record ChessGameState =
  cg_board :: "ChessPiece option list list"
  sideToMove :: ChessColor
  castlingRights :: ChessCastlingRights
  enPassantSquare :: "ChessCoord option"
  cg_halfmoveClock :: int
  cg_fullmoveNumber :: int
  cg_history :: "string list"
  lastMove :: "ChessMove option"
  players :: Players
  winner :: "string option"
  gameOver :: bool
  cg_check :: bool
  checkmate :: bool
  stalemate :: bool
  draw :: bool
  cg_fen :: string

text \<open>
  The object \<open>makeMove\<close> returns. Its \<open>gameState\<close> is a reference to a state object
  where the objects are kept in a heap, and that state's contents where they are read
  out.
\<close>

record 'a MoveResult =
  success :: bool
  gameState :: "'a option"
  r_error :: "string option"

text \<open>
  \<open>board[y][x]\<close>. On a board of eight rows of eight squares every access of the
  source is inside the array, and \<open>sq_at\<close> and \<open>sq_set\<close> are the source's read and
  write. On another board they are not: the source raises a \<open>TypeError\<close> when the row
  \<open>board[y]\<close> is missing and extends a short row on a write, where \<open>sq_at\<close> gives no
  piece and \<open>sq_set\<close> changes nothing. The properties of the server engine therefore
  state the shape of the board as a hypothesis.
\<close>

definition sq_at :: "ChessPiece option list list \<Rightarrow> int \<Rightarrow> int \<Rightarrow> ChessPiece option" where
  "sq_at b y x =
     (if 0 \<le> y \<and> y < int (length b) \<and> 0 \<le> x \<and> x < int (length (b ! nat y))
      then b ! nat y ! nat x else None)"

definition sq_set :: "ChessPiece option list list \<Rightarrow> int \<Rightarrow> int \<Rightarrow> ChessPiece option
    \<Rightarrow> ChessPiece option list list" where
  "sq_set b y x v =
     (if 0 \<le> y \<and> y < int (length b) \<and> 0 \<le> x \<and> x < int (length (b ! nat y))
      then b[nat y := (b ! nat y)[nat x := v]] else b)"

definition at_coord :: "ChessGameState \<Rightarrow> ChessCoord \<Rightarrow> ChessPiece option" where
  "at_coord state pos = sq_at (cg_board state) (cy pos) (cx pos)"

definition coord :: "int \<Rightarrow> int \<Rightarrow> ChessCoord" where
  "coord x y = \<lparr>cx = x, cy = y\<rparr>"

definition isValidPos :: "ChessCoord \<Rightarrow> bool" where
  "isValidPos pos = (cx pos \<ge> 0 \<and> cx pos < 8 \<and> cy pos \<ge> 0 \<and> cy pos < 8)"

definition getOpponentColor :: "ChessColor \<Rightarrow> ChessColor" where
  "getOpponentColor c = (if c = white then black else white)"

subsection \<open>Initial position\<close>

definition backRank :: "ChessPieceType list" where
  "backRank = [rook, knight, bishop, queen, king, bishop, knight, rook]"

text \<open>\<open>setupRow\<close>; \<open>n\<close> is the number of identifiers drawn before the row.\<close>

definition setupRow :: "nat \<Rightarrow> ChessColor \<Rightarrow> ChessPieceType list \<Rightarrow> ChessPiece option list" where
  "setupRow n c pieces =
     map (\<lambda>(col, ty). Some \<lparr>cp_id = n + col, cp_type = ty, cp_color = c, cp_hasMoved = False\<rparr>)
       (zip [0..<length pieces] pieces)"

definition createInitialBoard :: "ChessPiece option list list" where
  "createInitialBoard =
     [setupRow 0 black backRank, setupRow 8 black (replicate 8 pawn),
      replicate 8 None, replicate 8 None, replicate 8 None, replicate 8 None,
      setupRow 16 white (replicate 8 pawn), setupRow 24 white backRank]"

definition initializeGame :: "string \<Rightarrow> string \<Rightarrow> ChessGameState" where
  "initializeGame whitePlayerId blackPlayerId =
     \<lparr>cg_board = createInitialBoard, sideToMove = white,
      castlingRights = \<lparr>whiteKingSide = True, whiteQueenSide = True,
                        blackKingSide = True, blackQueenSide = True\<rparr>,
      enPassantSquare = None, cg_halfmoveClock = 0, cg_fullmoveNumber = 1,
      cg_history = [], lastMove = None,
      players = \<lparr>pl_white = whitePlayerId, pl_black = blackPlayerId\<rparr>,
      winner = None, gameOver = False, cg_check = False, checkmate = False,
      stalemate = False, draw = False,
      cg_fen = ''rnbqkbnr/pppppppp/8/8/8/8/PPPPPPPP/RNBQKBNR w KQkq - 0 1''\<rparr>"

subsection \<open>Attack detection\<close>

definition cg_holds :: "ChessPiece option \<Rightarrow> ChessColor \<Rightarrow> ChessPieceType \<Rightarrow> bool" where
  "cg_holds sqr c ty = (case sqr of None \<Rightarrow> False | Some p \<Rightarrow> cp_color p = c \<and> cp_type p = ty)"

text \<open>The loop \<open>for (let i = 1; i < 8; i++)\<close> of the sliding test for one direction.\<close>

function cg_attackRay :: "ChessGameState \<Rightarrow> ChessCoord \<Rightarrow> ChessColor \<Rightarrow> ChessCoord \<Rightarrow> int \<Rightarrow> bool" where
  "cg_attackRay state pos attackerColor dir i =
     (if \<not> i < 8 then False
      else
        let t = coord (cx pos + cx dir * i) (cy pos + cy dir * i) in
        if \<not> isValidPos t then False
        else
          (case at_coord state t of
             Some p \<Rightarrow>
               cp_color p = attackerColor
               \<and> (let isDiagonal = (cx dir \<noteq> 0 \<and> cy dir \<noteq> 0) in
                  cp_type p = queen \<or> (isDiagonal \<and> cp_type p = bishop)
                  \<or> (\<not> isDiagonal \<and> cp_type p = rook))
           | None \<Rightarrow> cg_attackRay state pos attackerColor dir (i + 1)))"
  by pat_completeness auto
termination
  by (relation "measure (\<lambda>(state, pos, attackerColor, dir, i). nat (8 - i))") auto

definition knightOffsets :: "ChessCoord list" where
  "knightOffsets = [coord 1 2, coord 1 (-2), coord (-1) 2, coord (-1) (-2),
                    coord 2 1, coord 2 (-1), coord (-2) 1, coord (-2) (-1)]"

definition kingOffsets :: "ChessCoord list" where
  "kingOffsets = [coord 0 1, coord 0 (-1), coord 1 0, coord (-1) 0,
                  coord 1 1, coord 1 (-1), coord (-1) 1, coord (-1) (-1)]"

definition attackDirs :: "ChessCoord list" where
  "attackDirs = [coord 0 1, coord 0 (-1), coord 1 0, coord (-1) 0,
                 coord 1 1, coord 1 (-1), coord (-1) 1, coord (-1) (-1)]"

definition cg_stepAttacks :: "ChessGameState \<Rightarrow> ChessCoord \<Rightarrow> ChessColor \<Rightarrow> ChessPieceType
    \<Rightarrow> ChessCoord \<Rightarrow> bool" where
  "cg_stepAttacks state pos attackerColor ty off =
     (let t = coord (cx pos + cx off) (cy pos + cy off) in
      isValidPos t \<and> cg_holds (at_coord state t) attackerColor ty)"

definition cg_isSquareAttacked :: "ChessGameState \<Rightarrow> ChessCoord \<Rightarrow> ChessColor \<Rightarrow> bool" where
  "cg_isSquareAttacked state pos attackerColor =
     (let pawnDir = (if attackerColor = white then -1 else 1);
          pawnRow = cy pos - pawnDir
      in (pawnRow \<ge> 0 \<and> pawnRow < 8
          \<and> ((cx pos > 0 \<and> cg_holds (sq_at (cg_board state) pawnRow (cx pos - 1)) attackerColor pawn)
             \<or> (cx pos < 7 \<and> cg_holds (sq_at (cg_board state) pawnRow (cx pos + 1)) attackerColor pawn)))
         \<or> list_ex (cg_stepAttacks state pos attackerColor knight) knightOffsets
         \<or> list_ex (\<lambda>dir. cg_attackRay state pos attackerColor dir 1) attackDirs
         \<or> list_ex (cg_stepAttacks state pos attackerColor king) kingOffsets)"

text \<open>\<open>findKing\<close>: rows from 0 to 7, in each row the columns from 0 to 7.\<close>

definition allCoords :: "ChessCoord list" where
  "allCoords = concat (map (\<lambda>y. map (\<lambda>x. coord x y) [0, 1, 2, 3, 4, 5, 6, 7]) [0, 1, 2, 3, 4, 5, 6, 7])"

definition findKing :: "ChessGameState \<Rightarrow> ChessColor \<Rightarrow> ChessCoord option" where
  "findKing state c = find (\<lambda>pos. cg_holds (at_coord state pos) c king) allCoords"

definition isKingInCheck :: "ChessGameState \<Rightarrow> ChessColor \<Rightarrow> bool" where
  "isKingInCheck state c =
     (case findKing state c of
        None \<Rightarrow> True
      | Some kingPos \<Rightarrow> cg_isSquareAttacked state kingPos (getOpponentColor c))"

subsection \<open>Pseudo-legal moves\<close>

definition cg_move :: "ChessCoord \<Rightarrow> ChessCoord \<Rightarrow> ChessPiece \<Rightarrow> ChessPiece option \<Rightarrow> ChessMove" where
  "cg_move frm t piece cap =
     \<lparr>cm_from = frm, cm_to = t, cm_pieceId = cp_id piece, cm_capture = cap,
      cm_promotion = None, cm_isEnPassant = False, cm_isCastle = None\<rparr>"

definition addPromotionMoves :: "ChessCoord \<Rightarrow> ChessCoord \<Rightarrow> ChessPiece \<Rightarrow> ChessPiece option
    \<Rightarrow> ChessMove list" where
  "addPromotionMoves frm t piece cap =
     map (\<lambda>ty. (cg_move frm t piece cap)\<lparr>cm_promotion := Some ty\<rparr>) [queen, rook, bishop, knight]"

definition cg_isEnemy :: "ChessPiece option \<Rightarrow> ChessPiece \<Rightarrow> bool" where
  "cg_isEnemy target piece = (case target of None \<Rightarrow> False | Some t \<Rightarrow> cp_color t \<noteq> cp_color piece)"

text \<open>One round of the loop over \<open>captureOffsets\<close>.\<close>

definition cg_pawnCapture :: "ChessGameState \<Rightarrow> ChessCoord \<Rightarrow> ChessPiece \<Rightarrow> int \<Rightarrow> ChessMove list" where
  "cg_pawnCapture state frm piece offset =
     (let direction = (if cp_color piece = white then -1 else 1);
          promotionRank = (if cp_color piece = white then 0 else 7);
          t = coord (cx frm + offset) (cy frm + direction)
      in if isValidPos t then
           (let target = at_coord state t in
            if cg_isEnemy target piece then
              (if cy t = promotionRank then addPromotionMoves frm t piece target
               else [cg_move frm t piece target])
            else
              (case enPassantSquare state of
                 None \<Rightarrow> []
               | Some ep \<Rightarrow>
                   if cx t = cx ep \<and> cy t = cy ep then
                     (let capturedPawn = sq_at (cg_board state) (cy frm) (cx t) in
                      if cg_isEnemy capturedPawn piece
                      then [(cg_move frm t piece capturedPawn)\<lparr>cm_isEnPassant := True\<rparr>]
                      else [])
                   else []))
         else [])"

definition cg_generatePawnMoves :: "ChessGameState \<Rightarrow> ChessCoord \<Rightarrow> ChessPiece \<Rightarrow> ChessMove list" where
  "cg_generatePawnMoves state frm piece =
     (let direction = (if cp_color piece = white then -1 else 1);
          startRank = (if cp_color piece = white then 6 else 1);
          promotionRank = (if cp_color piece = white then 0 else 7);
          to1 = coord (cx frm) (cy frm + direction);
          pushes =
            (if isValidPos to1 \<and> at_coord state to1 = None then
               (if cy to1 = promotionRank then addPromotionMoves frm to1 piece None
                else cg_move frm to1 piece None #
                  (if cy frm = startRank then
                     (let to2 = coord (cx frm) (cy frm + direction * 2) in
                      if at_coord state to2 = None then [cg_move frm to2 piece None] else [])
                   else []))
             else [])
      in pushes @ concat (map (cg_pawnCapture state frm piece) [-1, 1]))"

definition generateStepMoves :: "ChessGameState \<Rightarrow> ChessCoord \<Rightarrow> ChessPiece \<Rightarrow> ChessCoord list
    \<Rightarrow> ChessMove list" where
  "generateStepMoves state frm piece offsets =
     concat (map (\<lambda>off.
       let t = coord (cx frm + cx off) (cy frm + cy off) in
       if isValidPos t then
         (let target = at_coord state t in
          if target = None \<or> cg_isEnemy target piece then [cg_move frm t piece target] else [])
       else []) offsets)"

definition cg_generateKnightMoves :: "ChessGameState \<Rightarrow> ChessCoord \<Rightarrow> ChessPiece \<Rightarrow> ChessMove list" where
  "cg_generateKnightMoves state frm piece = generateStepMoves state frm piece knightOffsets"

definition cg_castleMove :: "ChessCoord \<Rightarrow> ChessCoord \<Rightarrow> ChessPiece \<Rightarrow> CastleSide \<Rightarrow> ChessMove" where
  "cg_castleMove frm t piece side = (cg_move frm t piece None)\<lparr>cm_isCastle := Some side\<rparr>"

definition cg_generateKingMoves :: "ChessGameState \<Rightarrow> ChessCoord \<Rightarrow> ChessPiece \<Rightarrow> ChessMove list" where
  "cg_generateKingMoves state frm piece =
     generateStepMoves state frm piece kingOffsets
     @ (if \<not> cp_hasMoved piece \<and> \<not> isKingInCheck state (cp_color piece) then
          (let y = (if cp_color piece = white then 7 else 0);
               rights = castlingRights state;
               b = cg_board state;
               opp = getOpponentColor (cp_color piece)
           in (if (if cp_color piece = white then whiteKingSide rights else blackKingSide rights)
                  \<and> sq_at b y 5 = None \<and> sq_at b y 6 = None
                  \<and> \<not> cg_isSquareAttacked state (coord 5 y) opp
                  \<and> \<not> cg_isSquareAttacked state (coord 6 y) opp
               then [cg_castleMove frm (coord 6 y) piece kingSide] else [])
              @ (if (if cp_color piece = white then whiteQueenSide rights else blackQueenSide rights)
                    \<and> sq_at b y 1 = None \<and> sq_at b y 2 = None \<and> sq_at b y 3 = None
                    \<and> \<not> cg_isSquareAttacked state (coord 3 y) opp
                    \<and> \<not> cg_isSquareAttacked state (coord 2 y) opp
                 then [cg_castleMove frm (coord 2 y) piece queenSide] else []))
        else [])"

text \<open>The loop \<open>for (let i = 1; i < 8; i++)\<close> of \<open>generateSlidingMoves\<close> for one direction.\<close>

function cg_slideLoop :: "ChessGameState \<Rightarrow> ChessCoord \<Rightarrow> ChessPiece \<Rightarrow> ChessCoord \<Rightarrow> int
    \<Rightarrow> ChessMove list" where
  "cg_slideLoop state frm piece dir i =
     (if \<not> i < 8 then []
      else
        let t = coord (cx frm + cx dir * i) (cy frm + cy dir * i) in
        if \<not> isValidPos t then []
        else
          (case at_coord state t of
             Some target \<Rightarrow>
               if cp_color target \<noteq> cp_color piece then [cg_move frm t piece (Some target)] else []
           | None \<Rightarrow> cg_move frm t piece None # cg_slideLoop state frm piece dir (i + 1)))"
  by pat_completeness auto
termination
  by (relation "measure (\<lambda>(state, frm, piece, dir, i). nat (8 - i))") auto

definition cg_generateSlidingMoves :: "ChessGameState \<Rightarrow> ChessCoord \<Rightarrow> ChessPiece \<Rightarrow> ChessMove list" where
  "cg_generateSlidingMoves state frm piece =
     (let directions =
            (if cp_type piece = bishop \<or> cp_type piece = queen
             then [coord 1 1, coord 1 (-1), coord (-1) 1, coord (-1) (-1)] else [])
            @ (if cp_type piece = rook \<or> cp_type piece = queen
               then [coord 0 1, coord 0 (-1), coord 1 0, coord (-1) 0] else [])
      in concat (map (\<lambda>dir. cg_slideLoop state frm piece dir 1) directions))"

definition generatePseudoMoves :: "ChessGameState \<Rightarrow> ChessColor \<Rightarrow> ChessMove list" where
  "generatePseudoMoves state c =
     concat (map (\<lambda>frm.
       case at_coord state frm of
         None \<Rightarrow> []
       | Some piece \<Rightarrow>
           if cp_color piece \<noteq> c then []
           else if cp_type piece = pawn then cg_generatePawnMoves state frm piece
           else if cp_type piece = knight then cg_generateKnightMoves state frm piece
           else if cp_type piece = bishop \<or> cp_type piece = rook \<or> cp_type piece = queen
             then cg_generateSlidingMoves state frm piece
           else if cp_type piece = king then cg_generateKingMoves state frm piece
           else []) allCoords)"

subsection \<open>Applying a move\<close>

text \<open>
  \<open>applyMove\<close> works on a deep copy and returns it. The moved piece is one object, so
  the later assignments to \<open>hasMoved\<close> and \<open>type\<close> show on the square it was put on;
  the model writes the final piece there. \<open>piece.hasMoved = true\<close> on an empty origin
  square and \<open>rook.hasMoved = true\<close> on an empty rook square raise a \<open>TypeError\<close>.
\<close>

definition cg_clearRookRights :: "ChessCastlingRights \<Rightarrow> ChessCoord \<Rightarrow> ChessCastlingRights" where
  "cg_clearRookRights r pos =
     (let r1 = (if cx pos = 0 \<and> cy pos = 7 then r\<lparr>whiteQueenSide := False\<rparr> else r);
          r2 = (if cx pos = 7 \<and> cy pos = 7 then r1\<lparr>whiteKingSide := False\<rparr> else r1);
          r3 = (if cx pos = 0 \<and> cy pos = 0 then r2\<lparr>blackQueenSide := False\<rparr> else r2)
      in if cx pos = 7 \<and> cy pos = 0 then r3\<lparr>blackKingSide := False\<rparr> else r3)"

definition moveRook :: "ChessPiece option list list \<Rightarrow> int \<Rightarrow> int \<Rightarrow> int
    \<Rightarrow> error + ChessPiece option list list" where
  "moveRook b row src dst =
     (case sq_at b row src of
        None \<Rightarrow> Inl TypeError
      | Some rk \<Rightarrow> Inr (sq_set (sq_set b row dst (Some (rk\<lparr>cp_hasMoved := True\<rparr>))) row src None))"

definition applyMove :: "ChessGameState \<Rightarrow> ChessMove \<Rightarrow> bool \<Rightarrow> error + ChessGameState" where
  "applyMove state move testMode =
     (let frm = cm_from move; t = cm_to move in
      case at_coord state frm of
        None \<Rightarrow> Inl TypeError
      | Some piece0 \<Rightarrow>
          let piece = piece0\<lparr>cp_hasMoved := True,
                             cp_type := (case cm_promotion move of
                                           Some ty \<Rightarrow> ty | None \<Rightarrow> cp_type piece0)\<rparr>;
              b1 = sq_set (sq_set (cg_board state) (cy t) (cx t) (Some piece)) (cy frm) (cx frm) None;
              b2 = (if cm_capture move \<noteq> None \<and> cm_isEnPassant move
                    then sq_set b1 (cy frm) (cx t) None else b1);
              b3 = (case cm_isCastle move of
                      None \<Rightarrow> Inr b2
                    | Some kingSide \<Rightarrow> moveRook b2 (cy frm) 7 5
                    | Some queenSide \<Rightarrow> moveRook b2 (cy frm) 0 3)
          in case b3 of
               Inl e \<Rightarrow> Inl e
             | Inr b \<Rightarrow>
                 let ep = (if cp_type piece = pawn \<and> \<bar>cy t - cy frm\<bar> = 2
                           then Some (coord (cx frm) ((cy frm + cy t) div 2)) else None);
                     r1 = (if cp_type piece = king then
                             (if cp_color piece = white
                              then (castlingRights state)\<lparr>whiteKingSide := False, whiteQueenSide := False\<rparr>
                              else (castlingRights state)\<lparr>blackKingSide := False, blackQueenSide := False\<rparr>)
                           else castlingRights state);
                     r2 = (if cp_type piece = rook then cg_clearRookRights r1 frm else r1);
                     r3 = (case cm_capture move of
                             None \<Rightarrow> r2
                           | Some cap \<Rightarrow> if cp_type cap = rook then cg_clearRookRights r2 t else r2);
                     newState = state\<lparr>cg_board := b, enPassantSquare := ep, castlingRights := r3\<rparr>
                 in if \<not> testMode then
                      Inr (newState\<lparr>
                        sideToMove := (if sideToMove state = white then black else white),
                        lastMove := Some move,
                        cg_halfmoveClock := (if cp_type piece = pawn \<or> cm_capture move \<noteq> None
                                             then 0 else cg_halfmoveClock state + 1),
                        cg_fullmoveNumber := (if sideToMove state = black
                                              then cg_fullmoveNumber state + 1
                                              else cg_fullmoveNumber state)\<rparr>)
                    else Inr newState)"

subsection \<open>Legal moves\<close>

text \<open>The \<open>filter\<close> of \<open>getLegalMoves\<close>; an exception of \<open>applyMove\<close> ends it.\<close>

fun filterLegal :: "ChessGameState \<Rightarrow> ChessMove list \<Rightarrow> error + ChessMove list" where
  "filterLegal gs [] = Inr []"
| "filterLegal gs (m # ms) =
     (case applyMove gs m True of
        Inl e \<Rightarrow> Inl e
      | Inr testState \<Rightarrow>
          (case filterLegal gs ms of
             Inl e \<Rightarrow> Inl e
           | Inr rest \<Rightarrow>
               Inr (if \<not> isKingInCheck testState (sideToMove gs) then m # rest else rest)))"

definition getLegalMoves :: "ChessGameState \<Rightarrow> error + ChessMove list" where
  "getLegalMoves gs = filterLegal gs (generatePseudoMoves gs (sideToMove gs))"

subsection \<open>FEN of the server position and the draw tests\<close>

definition pieceChar :: "ChessPiece \<Rightarrow> char" where
  "pieceChar p =
     (let ch = (case cp_type p of
                  knight \<Rightarrow> CHR ''n'' | king \<Rightarrow> CHR ''k'' | queen \<Rightarrow> CHR ''q''
                | rook \<Rightarrow> CHR ''r'' | bishop \<Rightarrow> CHR ''b'' | pawn \<Rightarrow> CHR ''p'')
      in if cp_color p = white then toUpperCase ch else toLowerCase ch)"

fun cg_fenRowLoop :: "ChessPiece option list list \<Rightarrow> int \<Rightarrow> int list \<Rightarrow> string \<Rightarrow> int \<Rightarrow> string" where
  "cg_fenRowLoop b y [] fen emp = (if emp > 0 then fen @ intToString emp else fen)"
| "cg_fenRowLoop b y (x # xs) fen emp =
     (case sq_at b y x of
        None \<Rightarrow> cg_fenRowLoop b y xs fen (emp + 1)
      | Some p \<Rightarrow>
          cg_fenRowLoop b y xs
            ((if emp > 0 then fen @ intToString emp else fen) @ [pieceChar p]) 0)"

fun cg_fenRows :: "ChessPiece option list list \<Rightarrow> int list \<Rightarrow> string \<Rightarrow> string" where
  "cg_fenRows b [] fen = fen"
| "cg_fenRows b (y # ys) fen =
     (let fen1 = cg_fenRowLoop b y [0, 1, 2, 3, 4, 5, 6, 7] fen 0
      in cg_fenRows b ys (if y < 7 then fen1 @ ''/'' else fen1))"

definition generateFen :: "ChessGameState \<Rightarrow> string" where
  "generateFen state =
     (let fen0 = cg_fenRows (cg_board state) [0, 1, 2, 3, 4, 5, 6, 7] [];
          r = castlingRights state;
          castling0 = (if whiteKingSide r then ''K'' else [])
                    @ (if whiteQueenSide r then ''Q'' else [])
                    @ (if blackKingSide r then ''k'' else [])
                    @ (if blackQueenSide r then ''q'' else []);
          castlingPart = (if castling0 = [] then ''-'' else castling0);
          epPart = (case enPassantSquare state of
                      None \<Rightarrow> '' -''
                    | Some ep \<Rightarrow> '' '' @ [char_of (97 + cx ep)] @ intToString (8 - cy ep))
      in fen0 @ '' '' @ (if sideToMove state = white then ''w'' else ''b'')
         @ '' '' @ castlingPart @ epPart
         @ '' '' @ intToString (cg_halfmoveClock state) @ '' '' @ intToString (cg_fullmoveNumber state))"

text \<open>\<open>getPosition\<close>: the first four fields of a FEN, the counters stripped.\<close>

definition getPosition :: "string \<Rightarrow> string" where
  "getPosition fen = join_with CHR '' '' (take 4 (split_on CHR '' '' fen))"

definition isThreefoldRepetition :: "ChessGameState \<Rightarrow> bool" where
  "isThreefoldRepetition state =
     (let currentPos = getPosition (generateFen state);
          occurrences = length (filter (\<lambda>p. p = currentPos) (map getPosition (cg_history state)))
      in occurrences \<ge> 2)"

definition isInsufficientMaterial :: "ChessGameState \<Rightarrow> bool" where
  "isInsufficientMaterial state =
     (let pieces = concat (map (\<lambda>row. concat (map (\<lambda>sqr. case sqr of None \<Rightarrow> [] | Some p \<Rightarrow> [p]) row))
                            (cg_board state))
      in if length pieces = 2 then True
         else if length pieces = 3 then
           (find (\<lambda>p. cp_type p = bishop \<or> cp_type p = knight) pieces \<noteq> None)
         else False)"

subsection \<open>Submitting a move\<close>

definition failure :: "string \<Rightarrow> 'a MoveResult" where
  "failure msg = \<lparr>success = False, gameState = None, r_error = Some msg\<rparr>"

text \<open>
  The writes of \<open>makeMove\<close> to \<open>newState\<close>, from \<open>newState.check = isCheck\<close> to
  \<open>newState.history.push(newState.fen)\<close>: \<open>gs\<close> is the contents of the \<open>gameState\<close>
  argument, \<open>newState\<close> the contents \<open>applyMove\<close> has given the copy, and the result is
  the contents of the copy when \<open>makeMove\<close> returns.
\<close>

definition classifyState :: "ChessGameState \<Rightarrow> ChessGameState \<Rightarrow> ChessMove list \<Rightarrow> ChessGameState" where
  "classifyState gs newState nextLegalMoves =
     (let isCheck = isKingInCheck newState (sideToMove newState);
          s1 = newState\<lparr>cg_check := isCheck\<rparr>;
          s2 = (if length nextLegalMoves = 0 then
                  (if isCheck then
                     s1\<lparr>gameOver := True, checkmate := True,
                        winner := Some (if sideToMove gs = white
                                        then pl_white (players gs)
                                        else pl_black (players gs))\<rparr>
                   else s1\<lparr>gameOver := True, stalemate := True, draw := True\<rparr>)
                else if isInsufficientMaterial s1 \<or> cg_halfmoveClock s1 \<ge> 100
                        \<or> isThreefoldRepetition s1
                  then s1\<lparr>gameOver := True, draw := True\<rparr>
                else s1);
          s3 = s2\<lparr>cg_fen := generateFen s2\<rparr>
      in s3\<lparr>cg_history := cg_history s3 @ [cg_fen s3]\<rparr>)"

text \<open>
  Game states are objects, and \<open>makeMove\<close> is given a reference to one. The heap is
  the list of the state objects made so far, a reference is an index into it.
  \<open>JSON.parse(JSON.stringify(state))\<close> makes a new object with the contents of the old
  one; every object inside a state (rows, pieces, rights) is copied with it, so the
  contents of a state are a value.
\<close>

type_synonym heap = "ChessGameState list"

definition jsonCopy :: "heap \<Rightarrow> nat \<Rightarrow> nat \<times> heap" where
  "jsonCopy h r = (length h, h @ [h ! r])"

text \<open>
  \<open>applyMove\<close> on the heap: it copies the state, writes to the copy what \<open>applyMove\<close>
  above computes, and returns the reference of the copy. When it raises, the copy stays
  behind, out of reach (with the contents it had when made; the source has written part
  of the move to it).
\<close>

definition applyMoveRef :: "heap \<Rightarrow> nat \<Rightarrow> ChessMove \<Rightarrow> bool \<Rightarrow> (error + nat) \<times> heap" where
  "applyMoveRef h r move testMode =
     (let (n, h1) = jsonCopy h r in
      case applyMove (h1 ! n) move testMode of
        Inl e \<Rightarrow> (Inl e, h1)
      | Inr v \<Rightarrow> (Inr n, h1[n := v]))"

text \<open>\<open>getLegalMoves\<close> on the heap: each test of the filter makes a test state.\<close>

fun filterLegalRef :: "heap \<Rightarrow> nat \<Rightarrow> ChessMove list \<Rightarrow> (error + ChessMove list) \<times> heap" where
  "filterLegalRef h r [] = (Inr [], h)"
| "filterLegalRef h r (m # ms) =
     (case applyMoveRef h r m True of
        (Inl e, h1) \<Rightarrow> (Inl e, h1)
      | (Inr n, h1) \<Rightarrow>
          let keep = (\<not> isKingInCheck (h1 ! n) (sideToMove (h1 ! r))) in
          (case filterLegalRef h1 r ms of
             (Inl e, h2) \<Rightarrow> (Inl e, h2)
           | (Inr rest, h2) \<Rightarrow> (Inr (if keep then m # rest else rest), h2)))"

definition getLegalMovesRef :: "heap \<Rightarrow> nat \<Rightarrow> (error + ChessMove list) \<times> heap" where
  "getLegalMovesRef h r = filterLegalRef h r (generatePseudoMoves (h ! r) (sideToMove (h ! r)))"

text \<open>
  \<open>makeMove\<close> of the class, given the heap and the reference \<open>r\<close> of \<open>gameState\<close>.
  It returns the result object, or the exception that leaves the call, and the heap
  after the call. All its writes go to \<open>newState\<close>, the copy \<open>applyMove\<close> has made.
\<close>

definition makeMoveRef :: "heap \<Rightarrow> nat \<Rightarrow> string \<Rightarrow> ChessCoord \<Rightarrow> ChessCoord
    \<Rightarrow> ChessPieceType option \<Rightarrow> (error + nat MoveResult) \<times> heap" where
  "makeMoveRef h r playerId frm t promotion =
     (if gameOver (h ! r) then (Inr (failure ''Game is over''), h)
      else
        let isWhite = (pl_white (players (h ! r)) = playerId);
            isBlack = (pl_black (players (h ! r)) = playerId)
        in if \<not> isWhite \<and> \<not> isBlack then (Inr (failure ''Not a player''), h)
           else if isWhite \<and> sideToMove (h ! r) \<noteq> white then (Inr (failure ''Not your turn''), h)
           else if isBlack \<and> sideToMove (h ! r) \<noteq> black then (Inr (failure ''Not your turn''), h)
           else
             (case getLegalMovesRef h r of
                (Inl e, h1) \<Rightarrow> (Inl e, h1)
              | (Inr legalMoves, h1) \<Rightarrow>
                  (case find (\<lambda>m. cx (cm_from m) = cx frm \<and> cy (cm_from m) = cy frm
                                  \<and> cx (cm_to m) = cx t \<and> cy (cm_to m) = cy t
                                  \<and> (cm_promotion m = None \<or> cm_promotion m = promotion))
                          legalMoves of
                     None \<Rightarrow> (Inr (failure ''Illegal move''), h1)
                   | Some move \<Rightarrow>
                       (case applyMoveRef h1 r move False of
                          (Inl e, h2) \<Rightarrow> (Inl e, h2)
                        | (Inr n, h2) \<Rightarrow>
                            (case getLegalMovesRef h2 n of
                               (Inl e, h3) \<Rightarrow> (Inl e, h3)
                             | (Inr nextLegalMoves, h3) \<Rightarrow>
                                 (Inr \<lparr>success = True, gameState = Some n, r_error = None\<rparr>,
                                  h3[n := classifyState (h3 ! r) (h3 ! n) nextLegalMoves]))))))"

text \<open>
  The result of \<open>makeMove\<close> with the returned state read out of the heap, as a function
  of the contents of the state the call is given. It is what \<open>makeMoveRef\<close> returns
  (lemma \<open>makeMoveRef_value\<close> below) and is the form that is evaluated on concrete
  games.
\<close>

definition cg_makeMove :: "ChessGameState \<Rightarrow> string \<Rightarrow> ChessCoord \<Rightarrow> ChessCoord
    \<Rightarrow> ChessPieceType option \<Rightarrow> error + ChessGameState MoveResult" where
  "cg_makeMove gs playerId frm t promotion =
     (if gameOver gs then Inr (failure ''Game is over'')
      else
        let isWhite = (pl_white (players gs) = playerId);
            isBlack = (pl_black (players gs) = playerId)
        in if \<not> isWhite \<and> \<not> isBlack then Inr (failure ''Not a player'')
           else if isWhite \<and> sideToMove gs \<noteq> white then Inr (failure ''Not your turn'')
           else if isBlack \<and> sideToMove gs \<noteq> black then Inr (failure ''Not your turn'')
           else
             (case getLegalMoves gs of
                Inl e \<Rightarrow> Inl e
              | Inr legalMoves \<Rightarrow>
                  (case find (\<lambda>m. cx (cm_from m) = cx frm \<and> cy (cm_from m) = cy frm
                                  \<and> cx (cm_to m) = cx t \<and> cy (cm_to m) = cy t
                                  \<and> (cm_promotion m = None \<or> cm_promotion m = promotion))
                          legalMoves of
                     None \<Rightarrow> Inr (failure ''Illegal move'')
                   | Some move \<Rightarrow>
                       (case applyMove gs move False of
                          Inl e \<Rightarrow> Inl e
                        | Inr newState \<Rightarrow>
                            (case getLegalMoves newState of
                               Inl e \<Rightarrow> Inl e
                             | Inr nextLegalMoves \<Rightarrow>
                                 Inr \<lparr>success = True,
                                      gameState = Some (classifyState gs newState nextLegalMoves),
                                      r_error = None\<rparr>)))))"

definition readResult :: "heap \<Rightarrow> nat MoveResult \<Rightarrow> ChessGameState MoveResult" where
  "readResult h res =
     \<lparr>success = success res, gameState = map_option (\<lambda>n. h ! n) (gameState res),
      r_error = r_error res\<rparr>"

text \<open>
  Playing a list of submitted moves \<open>(playerId, from, to)\<close> one after the other, each on
  the state the previous call returned, as the server does; the play stops at the first
  call that does not succeed. \<open>playMovesRef\<close> plays on the heap and reads the last
  state out of it; \<open>playMoves\<close> is the same play on the contents.
\<close>

fun playMovesRef :: "heap \<Rightarrow> nat \<Rightarrow> (string \<times> ChessCoord \<times> ChessCoord) list \<Rightarrow> ChessGameState option" where
  "playMovesRef h r [] = Some (h ! r)"
| "playMovesRef h r ((pid, frm, t) # rest) =
     (case makeMoveRef h r pid frm t None of
        (Inr res, h') \<Rightarrow> (case gameState res of Some r' \<Rightarrow> playMovesRef h' r' rest | None \<Rightarrow> None)
      | (Inl e, h') \<Rightarrow> None)"

fun playMoves :: "ChessGameState \<Rightarrow> (string \<times> ChessCoord \<times> ChessCoord) list \<Rightarrow> ChessGameState option" where
  "playMoves gs [] = Some gs"
| "playMoves gs ((pid, frm, t) # rest) =
     (case cg_makeMove gs pid frm t None of
        Inr r \<Rightarrow> (case gameState r of Some gs' \<Rightarrow> playMoves gs' rest | None \<Rightarrow> None)
      | Inl e \<Rightarrow> None)"

text \<open>The board of a game state has eight rows of eight squares.\<close>

definition eightByEight :: "ChessGameState \<Rightarrow> bool" where
  "eightByEight gs = (length (cg_board gs) = 8 \<and> list_all (\<lambda>row. length row = 8) (cg_board gs))"

section \<open>Legal positions of the flat engine\<close>

text \<open>
  What the properties below need of a legal position: the board has its 64 squares; the
  en-passant target, when it is a square, is empty (the pawn has passed over it); a
  castling right is held only while the king and the rook of that side stand on their
  home squares; and the fullmove number is a non-negative integer below \<open>2^53\<close>, the
  range in which the source's \<open>++\<close> and \<open>--\<close> are exact.
\<close>

definition rightsOK :: "GameState \<Rightarrow> bool" where
  "rightsOK gs =
     ((wks (castling gs) \<longrightarrow> holds (board_get (board gs) 4) CHR ''k'' W
                            \<and> holds (board_get (board gs) 7) CHR ''r'' W)
      \<and> (wqs (castling gs) \<longrightarrow> holds (board_get (board gs) 4) CHR ''k'' W
                              \<and> holds (board_get (board gs) 0) CHR ''r'' W)
      \<and> (bks (castling gs) \<longrightarrow> holds (board_get (board gs) 60) CHR ''k'' B
                              \<and> holds (board_get (board gs) 63) CHR ''r'' B)
      \<and> (bqs (castling gs) \<longrightarrow> holds (board_get (board gs) 60) CHR ''k'' B
                              \<and> holds (board_get (board gs) 56) CHR ''r'' B))"

definition safeCounter :: "jsnum \<Rightarrow> bool" where
  "safeCounter c = (case c of Num n \<Rightarrow> 0 \<le> n \<and> n < 9007199254740992 | NaN \<Rightarrow> False)"

definition legalState :: "GameState \<Rightarrow> bool" where
  "legalState gs =
     (length (board gs) = 64
      \<and> (case enPassant gs of
            Some (Num n) \<Rightarrow> board_get (board gs) n = None
          | _ \<Rightarrow> True)
      \<and> rightsOK gs
      \<and> safeCounter (fullmoveNumber gs))"

text \<open>
  The square of the pawn an en-passant capture removes, and the shape a generated move
  has in a position: it starts on a square holding its piece and ends on another square
  of the board; an en-passant capture lands on an empty square next to the captured
  pawn; a castling move is a king move to one of the four castling squares over an
  empty rook destination.
\<close>

definition capSqOf :: "Move \<Rightarrow> int" where
  "capSqOf m = (if pcolor (m_piece m) = W then m_to m - 8 else m_to m + 8)"

definition moveOK :: "GameState \<Rightarrow> Move \<Rightarrow> bool" where
  "moveOK gs m =
     (onBoard (m_from m) \<and> onBoard (m_to m) \<and> m_from m \<noteq> m_to m
      \<and> board_get (board gs) (m_from m) = Some (m_piece m)
      \<and> (m_isEnPassant m \<longrightarrow>
            \<not> m_isCastling m \<and> board_get (board gs) (m_to m) = None
            \<and> onBoard (capSqOf m) \<and> capSqOf m \<noteq> m_from m \<and> capSqOf m \<noteq> m_to m)
      \<and> (m_isCastling m \<longrightarrow>
            ptype (m_piece m) = CHR ''k'' \<and> board_get (board gs) (m_to m) = None
            \<and> ((m_to m = 6 \<and> board_get (board gs) 5 = None \<and> m_from m \<noteq> 5 \<and> m_from m \<noteq> 7)
               \<or> (m_to m = 2 \<and> board_get (board gs) 3 = None \<and> m_from m \<noteq> 3 \<and> m_from m \<noteq> 0)
               \<or> (m_to m = 62 \<and> board_get (board gs) 61 = None \<and> m_from m \<noteq> 61 \<and> m_from m \<noteq> 63)
               \<or> (m_to m = 58 \<and> board_get (board gs) 59 = None \<and> m_from m \<noteq> 59 \<and> m_from m \<noteq> 56))))"

text \<open>
  For the comparison of the move generator with the attack test: the direction opposite
  to a direction, and the piece letter the table \<open>dirs\<close> of \<open>isSquareAttacked\<close> gives
  a direction (\<open>'r'\<close> along ranks and files, \<open>'b'\<close> along diagonals).
\<close>

fun oppositeDir :: "Dir \<Rightarrow> Dir" where
  "oppositeDir dN = dS"
| "oppositeDir dS = dN"
| "oppositeDir dE = dW"
| "oppositeDir dW = dE"
| "oppositeDir dNE = dSW"
| "oppositeDir dNW = dSE"
| "oppositeDir dSE = dNW"
| "oppositeDir dSW = dNE"

fun dirType :: "Dir \<Rightarrow> char" where
  "dirType dN = CHR ''r''"
| "dirType dS = CHR ''r''"
| "dirType dE = CHR ''r''"
| "dirType dW = CHR ''r''"
| "dirType dNE = CHR ''b''"
| "dirType dNW = CHR ''b''"
| "dirType dSE = CHR ''b''"
| "dirType dSW = CHR ''b''"

subsection \<open>A game that returns to the starting position\<close>

text \<open>
  The game in which both sides move the king's knight out and back, twice:
  1. Nf3 Nf6 2. Ng1 Ng8 3. Nf3 Nf6 4. Ng1 Ng8, submitted by the players \<open>w\<close> (white) and
  \<open>b\<close> (black). \<open>quietHop s frm t fen\<close> is the state expected after the piece on \<open>frm\<close> has
  moved to the empty square \<open>t\<close> in \<open>s\<close> when that is neither a pawn, a king or a rook
  move nor gives check or ends the game, \<open>fen\<close> being the FEN of the new position;
  \<open>dance1\<close> to \<open>dance8\<close> are the states expected after each move of the game, and
  \<open>accepted gs\<close> is the result of an accepted move with new state \<open>gs\<close>.
\<close>

definition quietHop :: "ChessGameState \<Rightarrow> ChessCoord \<Rightarrow> ChessCoord \<Rightarrow> string \<Rightarrow> ChessGameState" where
  "quietHop s frm t fen =
     (case at_coord s frm of
        None \<Rightarrow> s
      | Some p \<Rightarrow>
          s\<lparr>cg_board := sq_set (sq_set (cg_board s) (cy t) (cx t) (Some (p\<lparr>cp_hasMoved := True\<rparr>)))
                          (cy frm) (cx frm) None,
            sideToMove := getOpponentColor (sideToMove s),
            enPassantSquare := None,
            cg_halfmoveClock := cg_halfmoveClock s + 1,
            cg_fullmoveNumber := (if sideToMove s = black then cg_fullmoveNumber s + 1
                                  else cg_fullmoveNumber s),
            cg_history := cg_history s @ [fen],
            lastMove := Some (cg_move frm t p None),
            cg_check := False,
            cg_fen := fen\<rparr>)"

definition knightsOutAndBack :: "(string \<times> ChessCoord \<times> ChessCoord) list" where
  "knightsOutAndBack =
     [(''w'', coord 6 7, coord 5 5), (''b'', coord 6 0, coord 5 2),
      (''w'', coord 5 5, coord 6 7), (''b'', coord 5 2, coord 6 0)]"

definition dance0 :: ChessGameState where "dance0 = initializeGame ''w'' ''b''"
definition dance1 :: ChessGameState where
  "dance1 = quietHop dance0 (coord 6 7) (coord 5 5) ''rnbqkbnr/pppppppp/8/8/8/5N2/PPPPPPPP/RNBQKB1R b KQkq - 1 1''"
definition dance2 :: ChessGameState where
  "dance2 = quietHop dance1 (coord 6 0) (coord 5 2) ''rnbqkb1r/pppppppp/5n2/8/8/5N2/PPPPPPPP/RNBQKB1R w KQkq - 2 2''"
definition dance3 :: ChessGameState where
  "dance3 = quietHop dance2 (coord 5 5) (coord 6 7) ''rnbqkb1r/pppppppp/5n2/8/8/8/PPPPPPPP/RNBQKBNR b KQkq - 3 2''"
definition dance4 :: ChessGameState where
  "dance4 = quietHop dance3 (coord 5 2) (coord 6 0) ''rnbqkbnr/pppppppp/8/8/8/8/PPPPPPPP/RNBQKBNR w KQkq - 4 3''"
definition dance5 :: ChessGameState where
  "dance5 = quietHop dance4 (coord 6 7) (coord 5 5) ''rnbqkbnr/pppppppp/8/8/8/5N2/PPPPPPPP/RNBQKB1R b KQkq - 5 3''"
definition dance6 :: ChessGameState where
  "dance6 = quietHop dance5 (coord 6 0) (coord 5 2) ''rnbqkb1r/pppppppp/5n2/8/8/5N2/PPPPPPPP/RNBQKB1R w KQkq - 6 4''"
definition dance7 :: ChessGameState where
  "dance7 = quietHop dance6 (coord 5 5) (coord 6 7) ''rnbqkb1r/pppppppp/5n2/8/8/8/PPPPPPPP/RNBQKBNR b KQkq - 7 4''"
definition dance8 :: ChessGameState where
  "dance8 = quietHop dance7 (coord 5 2) (coord 6 0) ''rnbqkbnr/pppppppp/8/8/8/8/PPPPPPPP/RNBQKBNR w KQkq - 8 5''"

definition accepted :: "ChessGameState \<Rightarrow> error + ChessGameState MoveResult" where
  "accepted gs = Inr \<lparr>success = True, gameState = Some gs, r_error = None\<rparr>"

(*DEFS-END*)
section \<open>Properties of the flat engine\<close>

subsection \<open>Undo on a fresh position\<close>

text \<open>
  Claim C10. On a game state whose history is empty, \<open>undoMove\<close> returns normally and
  leaves every field of the state as it was: the result is the state itself.
\<close>

theorem undoMove_empty_history: "history gs = [] \<Longrightarrow> undoMove gs = gs"
  by (simp add: undoMove_def)

lemma initial_history: "history (projr (fenToGameState initialFEN)) = []"
  by code_simp

theorem undoMove_empty_history_witness:
  "history (projr (fenToGameState initialFEN)) = []
   \<and> undoMove (projr (fenToGameState initialFEN)) = projr (fenToGameState initialFEN)"
  using undoMove_empty_history [OF initial_history] initial_history by simp

subsection \<open>The twenty opening moves\<close>

lemma initial_decodes: "\<not> isl (fenToGameState initialFEN)"
  by code_simp

lemma initial_turn: "turn (projr (fenToGameState initialFEN)) = W"
  by code_simp

lemma initial_legal_pieces:
  "map (\<lambda>m. ptype (m_piece m)) (generateLegalMoves (projr (fenToGameState initialFEN)))
   = ''nnnnpppppppppppppppp''"
  by code_simp

text \<open>
  Claim C8. From the standard initial position, which decodes without error and has
  white to move, \<open>generateLegalMoves\<close> returns exactly 20 moves: 16 moves of pawns and
  4 moves of knights.
\<close>

theorem initial_position_twenty_moves:
  "\<not> isl (fenToGameState initialFEN)
   \<and> turn (projr (fenToGameState initialFEN)) = W
   \<and> length (generateLegalMoves (projr (fenToGameState initialFEN))) = 20
   \<and> length (filter (\<lambda>m. ptype (m_piece m) = CHR ''p'')
               (generateLegalMoves (projr (fenToGameState initialFEN)))) = 16
   \<and> length (filter (\<lambda>m. ptype (m_piece m) = CHR ''n'')
               (generateLegalMoves (projr (fenToGameState initialFEN)))) = 4"
proof -
  let ?ms = "generateLegalMoves (projr (fenToGameState initialFEN))"
  have len: "length ?ms = length (map (\<lambda>m. ptype (m_piece m)) ?ms)"
    by simp
  have flt: "length (filter (\<lambda>m. ptype (m_piece m) = c) ?ms)
             = length (filter (\<lambda>x. x = c) (map (\<lambda>m. ptype (m_piece m)) ?ms))" for c
    by (simp add: filter_map comp_def)
  show ?thesis
    unfolding len flt initial_legal_pieces
    using initial_decodes initial_turn by simp
qed

subsection \<open>What the FEN decoder rejects\<close>

lemma split_on_nonempty: "split_on c s \<noteq> []"
  by (induction s) (auto split: list.splits)

lemma length_split_on: "length (split_on c s) = Suc (count_list s c)"
  by (induction s) (auto split: list.splits simp: split_on_nonempty)

lemma hd_split_on: "hd (split_on c s) = takeWhile (\<lambda>x. x \<noteq> c) s"
  by (induction s) (auto split: list.splits simp: split_on_nonempty)

lemma nth0_split_on: "split_on c s ! 0 = takeWhile (\<lambda>x. x \<noteq> c) s"
  using hd_split_on [of c s] split_on_nonempty [of c s] by (simp add: hd_conv_nth)

text \<open>
  Claim C1, as stated, fails: a FEN whose last rank ends in the letter \<open>X\<close> is decoded,
  a white piece of type \<open>x\<close> standing on h1 of the returned position, and a FEN with
  nine ranks is decoded as well.
\<close>

theorem fen_unknown_letter_decoded:
  "\<not> isl (fenToGameState ''rnbqkbnr/pppppppp/8/8/8/8/PPPPPPPP/RNBQKBNX w KQkq - 0 1'')
   \<and> board_get (board (projr (fenToGameState
         ''rnbqkbnr/pppppppp/8/8/8/8/PPPPPPPP/RNBQKBNX w KQkq - 0 1''))) 7
       = Some \<lparr>ptype = CHR ''x'', pcolor = W\<rparr>
   \<and> \<not> isl (fenToGameState ''8/8/8/8/8/8/8/8/8 w - - 0 1'')"
  by code_simp

text \<open>
  Claim C1, amended. \<open>fenToGameState\<close> signals an error exactly when the string has
  fewer than four fields (fewer than three spaces), where it throws \<open>Invalid FEN\<close>, or
  has four fields and a board field, the text before the first space, of fewer than
  eight ranks (fewer than seven slashes), where reading the missing rank raises a
  \<open>TypeError\<close>. Every other string is decoded without an error.
\<close>

theorem fen_error_iff:
  "(fenToGameState fen = Inl InvalidFEN) = (count_list fen CHR '' '' < 3)
   \<and> (fenToGameState fen = Inl TypeError)
       = (3 \<le> count_list fen CHR '' ''
          \<and> count_list (takeWhile (\<lambda>x. x \<noteq> CHR '' '') fen) CHR ''/'' < 7)
   \<and> isl (fenToGameState fen)
       = (count_list fen CHR '' '' < 3
          \<or> count_list (takeWhile (\<lambda>x. x \<noteq> CHR '' '') fen) CHR ''/'' < 7)"
  by (auto simp: fenToGameState_def Let_def length_split_on nth0_split_on)

theorem fen_error_iff_witness:
  "fenToGameState ''8/8/8/8/8/8/8 w - - 0 1'' = Inl TypeError
   \<and> fenToGameState ''8/8/8/8/8/8/8/8 w -'' = Inl InvalidFEN
   \<and> \<not> isl (fenToGameState ''8/8/8/8/8/8/8/8 w - - 0 1'')"
  using fen_error_iff [of "''8/8/8/8/8/8/8 w - - 0 1''"]
    fen_error_iff [of "''8/8/8/8/8/8/8/8 w -''"]
    fen_error_iff [of "''8/8/8/8/8/8/8/8 w - - 0 1''"]
  by simp

subsection \<open>Check detection without a king\<close>

lemma findKingSquare_None:
  "(\<forall>i. 0 \<le> i \<and> i < 64 \<longrightarrow> \<not> holds (board_get (board gs) i) CHR ''k'' c)
   \<Longrightarrow> findKingSquare gs c = None"
  by (auto simp: findKingSquare_def find_None_iff)

lemma findKing_None:
  "(\<forall>x y. 0 \<le> x \<and> x < 8 \<and> 0 \<le> y \<and> y < 8 \<longrightarrow> \<not> cg_holds (sq_at (cg_board st) y x) c king)
   \<Longrightarrow> findKing st c = None"
  by (auto simp: findKing_def find_None_iff allCoords_def at_coord_def coord_def)

text \<open>
  Claim C9, as stated, fails: on the empty board, where no white king stands, \<open>inCheck\<close>
  of the flat engine returns the boolean \<open>false\<close> and \<open>isKingInCheck\<close> of the server
  engine returns the boolean \<open>true\<close>. Neither raises.
\<close>

theorem no_king_returns_boolean:
  "findKingSquare (projr (fenToGameState ''8/8/8/8/8/8/8/8 w - - 0 1'')) W = None
   \<and> inCheck (projr (fenToGameState ''8/8/8/8/8/8/8/8 w - - 0 1'')) W = False
   \<and> findKing ((initializeGame ''w'' ''b'')\<lparr>cg_board := replicate 8 (replicate 8 None)\<rparr>) white = None
   \<and> isKingInCheck ((initializeGame ''w'' ''b'')\<lparr>cg_board := replicate 8 (replicate 8 None)\<rparr>) white
       = True"
  by code_simp

text \<open>
  Claim C9, amended. When no king of the queried colour is on the board, check
  detection returns an ordinary boolean: \<open>inCheck\<close> answers \<open>false\<close>, and, on a board
  of eight rows, \<open>isKingInCheck\<close> answers \<open>true\<close>. (With fewer than eight rows the
  search for the king reads a row that is not there and raises.)
\<close>

theorem no_king_ordinary_result:
  "((\<forall>i. 0 \<le> i \<and> i < 64 \<longrightarrow> \<not> holds (board_get (board gs) i) CHR ''k'' c)
      \<longrightarrow> inCheck gs c = False)
   \<and> (length (cg_board st) = 8
        \<and> (\<forall>x y. 0 \<le> x \<and> x < 8 \<and> 0 \<le> y \<and> y < 8
              \<longrightarrow> \<not> cg_holds (sq_at (cg_board st) y x) c' king)
        \<longrightarrow> isKingInCheck st c' = True)"
  by (simp add: inCheck_def isKingInCheck_def findKingSquare_None findKing_None)

lemma empty_flat_no_king:
  "\<forall>i. 0 \<le> i \<and> i < 64 \<longrightarrow>
     \<not> holds (board_get (board \<lparr>board = makeEmptyBoard, turn = W,
          castling = \<lparr>wks = False, wqs = False, bks = False, bqs = False\<rparr>,
          enPassant = None, halfmoveClock = Num 0, fullmoveNumber = Num 1, history = []\<rparr>) i)
        CHR ''k'' W"
proof (intro allI impI)
  fix i :: int
  assume "0 \<le> i \<and> i < 64"
  then have "nat i < 64" by auto
  then show "\<not> holds (board_get (board \<lparr>board = makeEmptyBoard, turn = W,
          castling = \<lparr>wks = False, wqs = False, bks = False, bqs = False\<rparr>,
          enPassant = None, halfmoveClock = Num 0, fullmoveNumber = Num 1, history = []\<rparr>) i)
        CHR ''k'' W"
    by (simp add: makeEmptyBoard_def board_get_def holds_def)
qed

lemma empty_server_no_king:
  "\<forall>x y. 0 \<le> x \<and> x < 8 \<and> 0 \<le> y \<and> y < 8 \<longrightarrow>
     \<not> cg_holds (sq_at (cg_board ((initializeGame ''w'' ''b'')
          \<lparr>cg_board := replicate 8 (replicate 8 None)\<rparr>)) y x) white king"
proof (intro allI impI)
  fix x y :: int
  assume "0 \<le> x \<and> x < 8 \<and> 0 \<le> y \<and> y < 8"
  then have "nat x < 8" "nat y < 8" by auto
  then show "\<not> cg_holds (sq_at (cg_board ((initializeGame ''w'' ''b'')
          \<lparr>cg_board := replicate 8 (replicate 8 None)\<rparr>)) y x) white king"
    by (simp add: sq_at_def cg_holds_def)
qed

lemma empty_server_eight_rows:
  "length (cg_board ((initializeGame ''w'' ''b'')\<lparr>cg_board := replicate 8 (replicate 8 None)\<rparr>)) = 8"
  by simp

theorem no_king_ordinary_result_witness:
  "inCheck \<lparr>board = makeEmptyBoard, turn = W,
       castling = \<lparr>wks = False, wqs = False, bks = False, bqs = False\<rparr>,
       enPassant = None, halfmoveClock = Num 0, fullmoveNumber = Num 1, history = []\<rparr> W = False
   \<and> length (cg_board ((initializeGame ''w'' ''b'')\<lparr>cg_board := replicate 8 (replicate 8 None)\<rparr>)) = 8
   \<and> isKingInCheck ((initializeGame ''w'' ''b'')\<lparr>cg_board := replicate 8 (replicate 8 None)\<rparr>)
       white = True"
  using no_king_ordinary_result empty_flat_no_king empty_server_no_king empty_server_eight_rows
  by blast

subsection \<open>Undoing a move\<close>

lemma board_get_nth: "0 \<le> i \<Longrightarrow> i < int (length b) \<Longrightarrow> board_get b i = b ! nat i"
  by (simp add: board_get_def)

lemma board_set_upd: "0 \<le> i \<Longrightarrow> i < int (length b) \<Longrightarrow> board_set b i v = b[nat i := v]"
  by (simp add: board_set_def)

lemma js_dec_inc: "js_dec (js_inc x) = x"
  by (cases x) auto

lemma make_undo_fields:
  assumes "length (board gs) = 64" "moveOK gs m"
  shows "turn (undoMove (fst (makeMove gs m))) = turn gs"
    and "castling (undoMove (fst (makeMove gs m))) = castling gs"
    and "enPassant (undoMove (fst (makeMove gs m))) = enPassant gs"
    and "halfmoveClock (undoMove (fst (makeMove gs m))) = halfmoveClock gs"
    and "fullmoveNumber (undoMove (fst (makeMove gs m))) = fullmoveNumber gs"
    and "history (undoMove (fst (makeMove gs m))) = history gs"
    and "GameState.more (undoMove (fst (makeMove gs m))) = GameState.more gs"
  by (cases "turn gs"; simp add: makeMove_def undoMove_def Let_def js_dec_inc)+


lemma plain_updates:
  fixes xs :: "'a option list"
  assumes "t < length xs" "f < length xs" "f \<noteq> t" "xs ! f = Some p"
  shows "xs[t := x, f := None, f := Some p, t := xs ! t] = xs"
  using assms by (auto simp: list_eq_iff_nth_eq nth_list_update)

lemma ep_updates:
  fixes xs :: "'a option list"
  assumes "c < length xs" "t < length xs" "f < length xs"
    and "c \<noteq> t" "c \<noteq> f" "f \<noteq> t"
    and "xs ! t = None" "xs ! f = Some p"
  shows "xs[c := None, t := x, f := None, f := Some p, c := xs ! c, t := None] = xs"
  using assms by (auto simp: list_eq_iff_nth_eq nth_list_update)

lemma castle_updates:
  fixes xs :: "'a option list"
  assumes "a < length xs" "g < length xs" "r < length xs" "f < length xs"
    and "a \<noteq> g" "a \<noteq> r" "g \<noteq> r" "f \<noteq> a" "f \<noteq> g" "f \<noteq> r"
    and "xs ! g = None" "xs ! a = None" "xs ! f = Some p"
  shows "xs[a := x, f := None, g := xs ! r, r := None, f := Some p, a := None, r := xs ! r,
            g := None] = xs"
  using assms by (auto simp: list_eq_iff_nth_eq nth_list_update)

lemma make_undo_board_plain:
  assumes len: "length (board gs) = 64" and ok: "moveOK gs m"
    and ne: "\<not> m_isEnPassant m" and nc: "\<not> m_isCastling m"
  shows "board (undoMove (fst (makeMove gs m))) = board gs"
proof -
  from ok have f: "0 \<le> m_from m" "m_from m < 64" and t: "0 \<le> m_to m" "m_to m < 64"
    and ft: "m_from m \<noteq> m_to m" and p: "board gs ! nat (m_from m) = Some (m_piece m)"
    using len by (auto simp: moveOK_def onBoard_def board_get_def)
  from f t ft len have n: "nat (m_from m) \<noteq> nat (m_to m)"
    "nat (m_from m) < length (board gs)" "nat (m_to m) < length (board gs)" by auto
  have "(board gs)[nat (m_to m) := x, nat (m_from m) := None, nat (m_from m) := Some (m_piece m),
          nat (m_to m) := board gs ! nat (m_to m)] = board gs" for x
    by (rule plain_updates) (use n p in simp_all)
  then show ?thesis
    using len f t ne nc
    by (simp add: makeMove_def undoMove_def Let_def board_get_nth board_set_upd)
qed

lemma make_undo_board_ep:
  assumes len: "length (board gs) = 64" and ok: "moveOK gs m"
    and ep: "m_isEnPassant m"
  shows "board (undoMove (fst (makeMove gs m))) = board gs"
proof -
  from ok have f: "0 \<le> m_from m" "m_from m < 64" and t: "0 \<le> m_to m" "m_to m < 64"
    and ft: "m_from m \<noteq> m_to m" and p: "board gs ! nat (m_from m) = Some (m_piece m)"
    using len by (auto simp: moveOK_def onBoard_def board_get_def)
  from ok ep have nc: "\<not> m_isCastling m" and e: "board gs ! nat (m_to m) = None"
    and c: "0 \<le> capSqOf m" "capSqOf m < 64" "capSqOf m \<noteq> m_from m" "capSqOf m \<noteq> m_to m"
    using len t by (auto simp: moveOK_def onBoard_def board_get_def)
  from f t ft c len have n: "nat (m_from m) \<noteq> nat (m_to m)" "nat (capSqOf m) \<noteq> nat (m_from m)"
    "nat (capSqOf m) \<noteq> nat (m_to m)" "nat (m_from m) < length (board gs)"
    "nat (m_to m) < length (board gs)" "nat (capSqOf m) < length (board gs)" by auto
  have u: "(board gs)[nat (capSqOf m) := None, nat (m_to m) := x, nat (m_from m) := None,
          nat (m_from m) := Some (m_piece m), nat (capSqOf m) := board gs ! nat (capSqOf m),
          nat (m_to m) := None] = board gs" for x
    by (rule ep_updates) (use n p e in simp_all)
  show ?thesis
  proof (cases "pcolor (m_piece m) = W")
    case True
    then have cs: "capSqOf m = m_to m - 8" by (simp add: capSqOf_def)
    show ?thesis
      using len f t c u ep nc True unfolding cs
      by (simp add: makeMove_def undoMove_def Let_def board_get_nth board_set_upd)
  next
    case False
    then have cs: "capSqOf m = m_to m + 8" by (simp add: capSqOf_def)
    show ?thesis
      using len f t c u ep nc False unfolding cs
      by (simp add: makeMove_def undoMove_def Let_def board_get_nth board_set_upd)
  qed
qed

lemma castle_wk:
  assumes len: "length (board gs) = 64"
    and f: "0 \<le> m_from m" "m_from m < 64" and p: "board gs ! nat (m_from m) = Some (m_piece m)"
    and ne: "\<not> m_isEnPassant m" and ca: "m_isCastling m" and k: "ptype (m_piece m) = CHR ''k''"
    and a: "m_to m = 6" "board gs ! 5 = None" "board gs ! 6 = None"
    and n: "nat (m_from m) \<noteq> 5" "nat (m_from m) \<noteq> 7" "nat (m_from m) \<noteq> 6"
  shows "board (undoMove (fst (makeMove gs m))) = board gs"
proof -
  have l: "nat (m_from m) < length (board gs)" using f len by auto
  have "(board gs)[6 := x, nat (m_from m) := None, 5 := board gs ! 7, 7 := None,
          nat (m_from m) := Some (m_piece m), 6 := None, 7 := board gs ! 7, 5 := None]
        = board gs" for x
    by (rule castle_updates) (use len l p a n in simp_all)
  then show ?thesis
    using assms
    by (simp add: makeMove_def undoMove_def Let_def board_get_nth board_set_upd)
qed

lemma castle_wq:
  assumes len: "length (board gs) = 64"
    and f: "0 \<le> m_from m" "m_from m < 64" and p: "board gs ! nat (m_from m) = Some (m_piece m)"
    and ne: "\<not> m_isEnPassant m" and ca: "m_isCastling m" and k: "ptype (m_piece m) = CHR ''k''"
    and a: "m_to m = 2" "board gs ! 3 = None" "board gs ! 2 = None"
    and n: "nat (m_from m) \<noteq> 3" "nat (m_from m) \<noteq> 0" "nat (m_from m) \<noteq> 2"
  shows "board (undoMove (fst (makeMove gs m))) = board gs"
proof -
  have l: "nat (m_from m) < length (board gs)" using f len by auto
  have "(board gs)[2 := x, nat (m_from m) := None, 3 := board gs ! 0, 0 := None,
          nat (m_from m) := Some (m_piece m), 2 := None, 0 := board gs ! 0, 3 := None]
        = board gs" for x
    by (rule castle_updates) (use len l p a n in simp_all)
  then show ?thesis
    using assms
    by (simp add: makeMove_def undoMove_def Let_def board_get_nth board_set_upd)
qed

lemma castle_bk:
  assumes len: "length (board gs) = 64"
    and f: "0 \<le> m_from m" "m_from m < 64" and p: "board gs ! nat (m_from m) = Some (m_piece m)"
    and ne: "\<not> m_isEnPassant m" and ca: "m_isCastling m" and k: "ptype (m_piece m) = CHR ''k''"
    and a: "m_to m = 62" "board gs ! 61 = None" "board gs ! 62 = None"
    and n: "nat (m_from m) \<noteq> 61" "nat (m_from m) \<noteq> 63" "nat (m_from m) \<noteq> 62"
  shows "board (undoMove (fst (makeMove gs m))) = board gs"
proof -
  have l: "nat (m_from m) < length (board gs)" using f len by auto
  have "(board gs)[62 := x, nat (m_from m) := None, 61 := board gs ! 63, 63 := None,
          nat (m_from m) := Some (m_piece m), 62 := None, 63 := board gs ! 63, 61 := None]
        = board gs" for x
    by (rule castle_updates) (use len l p a n in simp_all)
  then show ?thesis
    using assms
    by (simp add: makeMove_def undoMove_def Let_def board_get_nth board_set_upd)
qed

lemma castle_bq:
  assumes len: "length (board gs) = 64"
    and f: "0 \<le> m_from m" "m_from m < 64" and p: "board gs ! nat (m_from m) = Some (m_piece m)"
    and ne: "\<not> m_isEnPassant m" and ca: "m_isCastling m" and k: "ptype (m_piece m) = CHR ''k''"
    and a: "m_to m = 58" "board gs ! 59 = None" "board gs ! 58 = None"
    and n: "nat (m_from m) \<noteq> 59" "nat (m_from m) \<noteq> 56" "nat (m_from m) \<noteq> 58"
  shows "board (undoMove (fst (makeMove gs m))) = board gs"
proof -
  have l: "nat (m_from m) < length (board gs)" using f len by auto
  have "(board gs)[58 := x, nat (m_from m) := None, 59 := board gs ! 56, 56 := None,
          nat (m_from m) := Some (m_piece m), 58 := None, 56 := board gs ! 56, 59 := None]
        = board gs" for x
    by (rule castle_updates) (use len l p a n in simp_all)
  then show ?thesis
    using assms
    by (simp add: makeMove_def undoMove_def Let_def board_get_nth board_set_upd)
qed

lemma make_undo_board_castle:
  assumes len: "length (board gs) = 64" and ok: "moveOK gs m"
    and ca: "m_isCastling m"
  shows "board (undoMove (fst (makeMove gs m))) = board gs"
proof -
  from ok have f: "0 \<le> m_from m" "m_from m < 64" and t: "0 \<le> m_to m" "m_to m < 64"
    and ft: "m_from m \<noteq> m_to m" and p: "board gs ! nat (m_from m) = Some (m_piece m)"
    using len by (auto simp: moveOK_def onBoard_def board_get_def)
  from ok ca have ne: "\<not> m_isEnPassant m" by (auto simp: moveOK_def)
  from ok ca have k: "ptype (m_piece m) = CHR ''k''" and e: "board gs ! nat (m_to m) = None"
    using len t by (auto simp: moveOK_def board_get_def)
  from ok ca len consider
      (a) "m_to m = 6" "board gs ! 5 = None" "m_from m \<noteq> 5" "m_from m \<noteq> 7"
    | (b) "m_to m = 2" "board gs ! 3 = None" "m_from m \<noteq> 3" "m_from m \<noteq> 0"
    | (c) "m_to m = 62" "board gs ! 61 = None" "m_from m \<noteq> 61" "m_from m \<noteq> 63"
    | (d) "m_to m = 58" "board gs ! 59 = None" "m_from m \<noteq> 59" "m_from m \<noteq> 56"
    by (auto simp: moveOK_def board_get_def)
  then show ?thesis
  proof cases
    case a
    with f ft have n: "nat (m_from m) \<noteq> 5" "nat (m_from m) \<noteq> 7" "nat (m_from m) \<noteq> 6" by auto
    from a e have "board gs ! 6 = None" by simp
    with castle_wk [OF len f p ne ca k a(1) a(2) _ n] show ?thesis by simp
  next
    case b
    with f ft have n: "nat (m_from m) \<noteq> 3" "nat (m_from m) \<noteq> 0" "nat (m_from m) \<noteq> 2" by auto
    from b e have "board gs ! 2 = None" by simp
    with castle_wq [OF len f p ne ca k b(1) b(2) _ n] show ?thesis by simp
  next
    case c
    with f ft have n: "nat (m_from m) \<noteq> 61" "nat (m_from m) \<noteq> 63" "nat (m_from m) \<noteq> 62" by auto
    from c e have "board gs ! 62 = None" by simp
    with castle_bk [OF len f p ne ca k c(1) c(2) _ n] show ?thesis by simp
  next
    case d
    with f ft have n: "nat (m_from m) \<noteq> 59" "nat (m_from m) \<noteq> 56" "nat (m_from m) \<noteq> 58" by auto
    from d e have "board gs ! 58 = None" by simp
    with castle_bq [OF len f p ne ca k d(1) d(2) _ n] show ?thesis by simp
  qed
qed

lemma make_undo:
  assumes "length (board gs) = 64" "moveOK gs m"
  shows "undoMove (fst (makeMove gs m)) = gs"
proof (rule GameState.equality)
  show "board (undoMove (fst (makeMove gs m))) = board gs"
    using assms make_undo_board_plain make_undo_board_ep make_undo_board_castle by blast
qed (use assms make_undo_fields in auto)


lemma moveOK_plain:
  "onBoard sq \<Longrightarrow> onBoard t \<Longrightarrow> sq \<noteq> t \<Longrightarrow> board_get (board gs) sq = Some p
   \<Longrightarrow> moveOK gs (plainMove sq t p cap)"
  by (simp add: moveOK_def plainMove_def)

lemma moveOK_promotion_update: "moveOK gs (m\<lparr>m_promotion := x\<rparr>) = moveOK gs m"
  by (simp add: moveOK_def capSqOf_def)

lemma moveOK_promotion:
  assumes "onBoard sq" "onBoard t" "sq \<noteq> t" "board_get (board gs) sq = Some p"
    and "m \<in> set (promotionMoves sq t p cap)"
  shows "moveOK gs m"
proof -
  from assms(5) obtain pr where "m = (plainMove sq t p cap)\<lparr>m_promotion := Some pr\<rparr>"
    unfolding promotionMoves_def by (auto simp del: set_map)
  then show ?thesis
    using moveOK_plain [OF assms(1-4)] by (simp only: moveOK_promotion_update)
qed

lemma stepMove_ok:
  assumes "onBoard sq" "board_get (board gs) sq = Some p" "d \<noteq> 0"
    and "m \<in> set (stepMove gs sq p r d)"
  shows "moveOK gs m"
  using assms
  by (auto simp: stepMove_def Let_def moveOK_plain split: if_splits)

lemma slideLoop_ok:
  "m \<in> set (slideLoop gs sq p dir t lf) \<Longrightarrow> onBoard sq \<Longrightarrow> board_get (board gs) sq = Some p
   \<Longrightarrow> (0 < dirVals dir \<and> sq < t) \<or> (dirVals dir < 0 \<and> t < sq) \<Longrightarrow> moveOK gs m"
proof (induction gs sq p dir t lf rule: slideLoop.induct)
  case (1 gs sq p dir t lastFile)
  from "1.prems"(1) have on: "onBoard t"
    by (subst (asm) slideLoop.simps) (auto split: if_splits)
  from "1.prems"(4) have ne: "sq \<noteq> t" by auto
  show ?case
  proof (cases "board_get (board gs) t")
    case None
    with "1.prems"(1) on have
      "m = plainMove sq t p None \<or> m \<in> set (slideLoop gs sq p dir (t + dirVals dir) (fileOf t))"
      by (subst (asm) slideLoop.simps) (auto simp: Let_def split: if_splits)
    then show ?thesis
    proof
      assume "m = plainMove sq t p None"
      then show ?thesis using "1.prems"(2,3) on ne by (simp add: moveOK_plain)
    next
      assume in': "m \<in> set (slideLoop gs sq p dir (t + dirVals dir) (fileOf t))"
      have w: "\<not> (dir \<noteq> dN \<and> dir \<noteq> dS \<and> \<bar>fileOf t - lastFile\<bar> \<noteq> 1)"
        using "1.prems"(1) on by (subst (asm) slideLoop.simps) (auto simp: Let_def split: if_splits)
      have nxt: "(0 < dirVals dir \<and> sq < t + dirVals dir) \<or> (dirVals dir < 0 \<and> t + dirVals dir < sq)"
        using "1.prems"(4) by auto
      show ?thesis
        using "1.IH" [OF _ refl w None in' "1.prems"(2,3) nxt] on by simp
    qed
  next
    case (Some target)
    with "1.prems"(1) on have "m = plainMove sq t p (Some target)"
      by (subst (asm) slideLoop.simps) (auto simp: Let_def split: if_splits)
    then show ?thesis using "1.prems"(2,3) on ne by (simp add: moveOK_plain)
  qed
qed

lemma generateSlidingMoves_ok:
  assumes "m \<in> set (generateSlidingMoves gs sq p dirs)" "onBoard sq" "board_get (board gs) sq = Some p"
  shows "moveOK gs m"
proof -
  from assms(1) obtain dir where
    "m \<in> set (slideLoop gs sq p dir (sq + dirVals dir) (fileOf sq))"
    by (auto simp: generateSlidingMoves_def)
  moreover have "(0 < dirVals dir \<and> sq < sq + dirVals dir) \<or> (dirVals dir < 0 \<and> sq + dirVals dir < sq)"
    by (cases dir) auto
  ultimately show ?thesis using slideLoop_ok assms(2,3) by blast
qed

lemma generateKnightMoves_ok:
  assumes "m \<in> set (generateKnightMoves gs sq p)" "onBoard sq" "board_get (board gs) sq = Some p"
  shows "moveOK gs m"
  using assms by (auto simp: generateKnightMoves_def dest: stepMove_ok [rotated 3])

lemma pawnCapture_ok:
  assumes "m \<in> set (pawnCapture gs sq p d)" "onBoard sq" "board_get (board gs) sq = Some p"
    and "legalState gs" and "(pcolor p = W \<and> (d = 7 \<or> d = 9)) \<or> (pcolor p \<noteq> W \<and> (d = -7 \<or> d = -9))"
  shows "moveOK gs m"
proof -
  let ?t = "sq + d"
  from assms(1) have on: "onBoard ?t"
    by (auto simp: pawnCapture_def Let_def split: if_splits)
  from assms(5) have ne: "sq \<noteq> ?t" by auto
  show ?thesis
  proof (cases "isEnemy (board_get (board gs) ?t) p")
    case True
    with assms(1) on have "m \<in> set (promotionMoves sq ?t p (board_get (board gs) ?t))
        \<or> m = plainMove sq ?t p (board_get (board gs) ?t)"
      by (auto simp: pawnCapture_def Let_def split: if_splits)
    then show ?thesis
      using moveOK_promotion moveOK_plain assms(2,3) on ne by blast
  next
    case False
    with assms(1) on have ep: "enPassant gs = Some (Num ?t)"
      by (auto simp: pawnCapture_def Let_def split: if_splits)
    let ?c = "if pcolor p = W then ?t - 8 else ?t + 8"
    from False assms(1) on ep have
      c: "board_get (board gs) ?c \<noteq> None"
      and m: "m = (plainMove sq ?t p (board_get (board gs) ?c))\<lparr>m_isEnPassant := True\<rparr>"
      by (auto simp: pawnCapture_def Let_def split: if_splits option.splits) metis+
    from assms(4) ep have emp: "board_get (board gs) ?t = None"
      by (simp add: legalState_def)
    from c have onc: "onBoard ?c" using assms(4)
      by (auto simp: board_get_def onBoard_def legalState_def split: if_splits)
    from assms(5) have d: "?c \<noteq> sq" "?c \<noteq> ?t" by auto
    show ?thesis
      using m assms(2,3) on ne emp onc d
      by (auto simp: moveOK_def plainMove_def capSqOf_def split: if_splits)
  qed
qed


lemma generatePawnMoves_ok:
  assumes "m \<in> set (generatePawnMoves gs sq p)" "onBoard sq" "board_get (board gs) sq = Some p"
    and "legalState gs"
  shows "moveOK gs m"
proof -
  let ?dir = "if pcolor p = W then 8 else (-8 :: int)"
  from assms(1) consider
      (push) "onBoard (sq + ?dir)" "m \<in> set (promotionMoves sq (sq + ?dir) p None)
          \<or> m = plainMove sq (sq + ?dir) p None"
    | (two) "onBoard (sq + 2 * ?dir)" "m = plainMove sq (sq + 2 * ?dir) p None"
    | (cap) d where "m \<in> set (pawnCapture gs sq p d)"
        "(pcolor p = W \<and> (d = 7 \<or> d = 9)) \<or> (pcolor p \<noteq> W \<and> (d = -7 \<or> d = -9))"
    by (auto simp: generatePawnMoves_def Let_def split: if_splits)
  then show ?thesis
  proof cases
    case push
    then show ?thesis
      using moveOK_promotion [of sq "sq + ?dir" gs p m None] moveOK_plain [of sq "sq + ?dir" gs p None]
        assms(2,3) by auto
  next
    case two
    then show ?thesis
      using moveOK_plain [of sq "sq + 2 * ?dir" gs p None] assms(2,3) by auto
  next
    case cap
    then show ?thesis using pawnCapture_ok assms(2,3,4) by blast
  qed
qed

lemma generateKingMoves_ok:
  assumes "m \<in> set (generateKingMoves gs sq p)" "onBoard sq" "board_get (board gs) sq = Some p"
    and "legalState gs" and k: "ptype p = CHR ''k''"
  shows "moveOK gs m"
proof -
  let ?b = "board gs"
  from assms(1) consider
      (step) d where "m \<in> set (stepMove gs sq p 1 d)" "d \<noteq> 0"
    | (wk) "m = castleMove sq 6 p" "wks (castling gs)" "board_get ?b 5 = None" "board_get ?b 6 = None"
    | (wq) "m = castleMove sq 2 p" "wqs (castling gs)" "board_get ?b 3 = None" "board_get ?b 2 = None"
    | (bk) "m = castleMove sq 62 p" "bks (castling gs)" "board_get ?b 61 = None" "board_get ?b 62 = None"
    | (bq) "m = castleMove sq 58 p" "bqs (castling gs)" "board_get ?b 59 = None" "board_get ?b 58 = None"
    by (auto simp: generateKingMoves_def Let_def split: if_splits)
  then show ?thesis
  proof cases
    case step
    then show ?thesis using stepMove_ok assms(2,3) by blast
  next
    case wk
    from wk(2) assms(4) have "holds (board_get ?b 7) CHR ''r'' W"
      by (simp add: legalState_def rightsOK_def)
    with assms(3) k wk(3,4) have "sq \<noteq> 7" "sq \<noteq> 5" "sq \<noteq> 6" by (auto simp: holds_def)
    then show ?thesis
      using wk assms(2,3) k by (simp add: moveOK_def castleMove_def plainMove_def onBoard_def)
  next
    case wq
    from wq(2) assms(4) have "holds (board_get ?b 0) CHR ''r'' W"
      by (simp add: legalState_def rightsOK_def)
    with assms(3) k wq(3,4) have "sq \<noteq> 0" "sq \<noteq> 3" "sq \<noteq> 2" by (auto simp: holds_def)
    then show ?thesis
      using wq assms(2,3) k by (simp add: moveOK_def castleMove_def plainMove_def onBoard_def)
  next
    case bk
    from bk(2) assms(4) have "holds (board_get ?b 63) CHR ''r'' B"
      by (simp add: legalState_def rightsOK_def)
    with assms(3) k bk(3,4) have "sq \<noteq> 63" "sq \<noteq> 61" "sq \<noteq> 62" by (auto simp: holds_def)
    then show ?thesis
      using bk assms(2,3) k by (simp add: moveOK_def castleMove_def plainMove_def onBoard_def)
  next
    case bq
    from bq(2) assms(4) have "holds (board_get ?b 56) CHR ''r'' B"
      by (simp add: legalState_def rightsOK_def)
    with assms(3) k bq(3,4) have "sq \<noteq> 56" "sq \<noteq> 59" "sq \<noteq> 58" by (auto simp: holds_def)
    then show ?thesis
      using bq assms(2,3) k by (simp add: moveOK_def castleMove_def plainMove_def onBoard_def)
  qed
qed

lemma pseudo_moveOK:
  assumes "m \<in> set (generatePseudoLegalMoves gs)" "legalState gs"
  shows "moveOK gs m"
proof -
  from assms(1) obtain sq where sq: "0 \<le> sq" "sq \<le> 63" and m: "m \<in> set (pieceMoves gs sq)"
    by (auto simp: generatePseudoLegalMoves_def)
  from sq have on: "onBoard sq" by (simp add: onBoard_def)
  from m obtain p where p: "board_get (board gs) sq = Some p"
    by (cases "board_get (board gs) sq") (auto simp: pieceMoves_def)
  show ?thesis
    using m p on assms(2)
      generatePawnMoves_ok generateKnightMoves_ok generateSlidingMoves_ok generateKingMoves_ok
    by (auto simp: pieceMoves_def split: if_splits)
qed

lemma makeMove_captured_irrelevant:
  "fst (makeMove gs (m\<lparr>m_captured := c\<rparr>)) = fst (makeMove gs m)"
  by (simp add: makeMove_def Let_def)

lemma snd_makeMove: "snd (makeMove gs m) = m\<lparr>m_captured :=
    (if m_isEnPassant m then board_get (board gs) (if pcolor (m_piece m) = W then m_to m - 8 else m_to m + 8)
     else board_get (board gs) (m_to m))\<rparr>"
  by (simp add: makeMove_def Let_def)

lemma legal_from_pseudo:
  assumes "m \<in> set (generateLegalMoves gs)"
  shows "\<exists>m0 \<in> set (generatePseudoLegalMoves gs). m = snd (makeMove gs m0)"
proof -
  from assms obtain m0 where m0: "m0 \<in> set (generatePseudoLegalMoves gs)"
    and m: "m \<in> set (legalStep gs m0)"
    by (auto simp: generateLegalMoves_def)
  from m have "m = snd (makeMove gs m0)"
    by (cases "makeMove gs m0") (auto simp: legalStep_def Let_def split: if_splits)
  with m0 show ?thesis by blast
qed

text \<open>
  Claim C3. For every legal game state (its fullmove number an integer from 0 to below
  \<open>2^53\<close>, where the source's arithmetic is exact) and every move of
  \<open>generateLegalMoves\<close>, \<open>makeMove\<close> followed by \<open>undoMove\<close> gives back the state:
  board, turn, castling rights, en-passant target, halfmove clock, fullmove number and
  history are what they were.
\<close>

theorem make_undo_restores:
  assumes "legalState gs" "m \<in> set (generateLegalMoves gs)"
  shows "undoMove (fst (makeMove gs m)) = gs"
proof -
  from assms(2) obtain m0 where m0: "m0 \<in> set (generatePseudoLegalMoves gs)"
    and m: "m = snd (makeMove gs m0)"
    using legal_from_pseudo by blast
  from m have "fst (makeMove gs m) = fst (makeMove gs m0)"
    by (simp add: snd_makeMove makeMove_captured_irrelevant)
  moreover have "undoMove (fst (makeMove gs m0)) = gs"
    using make_undo pseudo_moveOK [OF m0 assms(1)] assms(1) by (simp add: legalState_def)
  ultimately show ?thesis by simp
qed

lemma en_passant_position_legal:
  "legalState (projr (fenToGameState ''rnbqkbnr/ppp1pppp/8/3pP3/8/8/PPPP1PPP/RNBQKBNR w KQkq d6 0 3''))"
  by code_simp

lemma en_passant_move_legal:
  "\<lparr>m_from = 36, m_to = 43, m_piece = \<lparr>ptype = CHR ''p'', pcolor = W\<rparr>,
     m_captured = Some \<lparr>ptype = CHR ''p'', pcolor = B\<rparr>, m_promotion = None,
     m_isEnPassant = True, m_isCastling = False\<rparr>
   \<in> set (generateLegalMoves
        (projr (fenToGameState ''rnbqkbnr/ppp1pppp/8/3pP3/8/8/PPPP1PPP/RNBQKBNR w KQkq d6 0 3'')))"
  by code_simp

theorem make_undo_restores_witness:
  "legalState (projr (fenToGameState ''rnbqkbnr/ppp1pppp/8/3pP3/8/8/PPPP1PPP/RNBQKBNR w KQkq d6 0 3''))
   \<and> \<lparr>m_from = 36, m_to = 43, m_piece = \<lparr>ptype = CHR ''p'', pcolor = W\<rparr>,
        m_captured = Some \<lparr>ptype = CHR ''p'', pcolor = B\<rparr>, m_promotion = None,
        m_isEnPassant = True, m_isCastling = False\<rparr>
      \<in> set (generateLegalMoves
           (projr (fenToGameState ''rnbqkbnr/ppp1pppp/8/3pP3/8/8/PPPP1PPP/RNBQKBNR w KQkq d6 0 3'')))
   \<and> undoMove (fst (makeMove
        (projr (fenToGameState ''rnbqkbnr/ppp1pppp/8/3pP3/8/8/PPPP1PPP/RNBQKBNR w KQkq d6 0 3''))
        \<lparr>m_from = 36, m_to = 43, m_piece = \<lparr>ptype = CHR ''p'', pcolor = W\<rparr>,
          m_captured = Some \<lparr>ptype = CHR ''p'', pcolor = B\<rparr>, m_promotion = None,
          m_isEnPassant = True, m_isCastling = False\<rparr>))
     = projr (fenToGameState ''rnbqkbnr/ppp1pppp/8/3pP3/8/8/PPPP1PPP/RNBQKBNR w KQkq d6 0 3'')"
  using make_undo_restores [OF en_passant_position_legal en_passant_move_legal]
    en_passant_position_legal en_passant_move_legal
  by simp

subsection \<open>Captures and attacked squares\<close>

lemma dirVals_opposite: "dirVals (oppositeDir dir) = - dirVals dir"
  by (cases dir) auto

lemma fileOf_rankOf: "0 \<le> x \<Longrightarrow> x = 8 * rankOf x + fileOf x \<and> 0 \<le> fileOf x \<and> fileOf x < 8"
  by (auto simp: fileOf_def rankOf_def js_mod_def)

lemma same_cell:
  "8 * a + f = 8 * b + g \<Longrightarrow> 0 \<le> f \<Longrightarrow> f < 8 \<Longrightarrow> 0 \<le> g \<Longrightarrow> g < 8 \<Longrightarrow> a = b \<and> f = (g::int)"
  by presburger

lemma step_arith:
  fixes r f r' f' d :: int
  assumes e: "8 * r + f + d = 8 * r' + f'" and b: "0 \<le> f" "f < 8" "0 \<le> f'" "f' < 8"
    and d: "(d = 8 \<or> d = -8) \<or> ((d = 1 \<or> d = -1 \<or> d = 9 \<or> d = 7 \<or> d = -7 \<or> d = -9) \<and> \<bar>f' - f\<bar> = 1)"
  shows "\<bar>f - f'\<bar> \<le> 1 \<and> \<bar>r - r'\<bar> \<le> 1"
proof -
  from d consider (n) "d = 8" | (s) "d = -8"
    | (u) "f' = f + 1" "d = 1 \<or> d = -1 \<or> d = 9 \<or> d = 7 \<or> d = -7 \<or> d = -9"
    | (l) "f' = f - 1" "d = 1 \<or> d = -1 \<or> d = 9 \<or> d = 7 \<or> d = -7 \<or> d = -9"
    by fastforce
  then show ?thesis
  proof cases
    case n
    with e have "8 * (r + 1) + f = 8 * r' + f'" by simp
    from same_cell [OF this b] show ?thesis by simp
  next
    case s
    with e have "8 * (r - 1) + f = 8 * r' + f'" by simp
    from same_cell [OF this b] show ?thesis by simp
  next
    case u
    from e u(1) have "8 * r + d = 8 * r' + 1" by simp
    with u(2) have "\<bar>r - r'\<bar> \<le> 1" by (elim disjE; arith)
    with u(1) show ?thesis by simp
  next
    case l
    from e l(1) have "8 * r + d + 1 = 8 * r'" by simp
    with l(2) have "\<bar>r - r'\<bar> \<le> 1" by (elim disjE; arith)
    with l(1) show ?thesis by simp
  qed
qed


lemma step_no_wrap:
  assumes "onBoard x" "onBoard (x + dirVals dir)"
    and "dir \<noteq> dN \<and> dir \<noteq> dS \<longrightarrow> \<bar>fileOf (x + dirVals dir) - fileOf x\<bar> = 1"
  shows "\<not> (\<bar>fileOf x - fileOf (x + dirVals dir)\<bar> > 1 \<or> \<bar>rankOf x - rankOf (x + dirVals dir)\<bar> > 1)"
proof -
  from assms(1,2) have a: "0 \<le> x" "0 \<le> x + dirVals dir" by (auto simp: onBoard_def)
  note fx = fileOf_rankOf [OF a(1)] and fy = fileOf_rankOf [OF a(2)]
  have e: "8 * rankOf x + fileOf x + dirVals dir
           = 8 * rankOf (x + dirVals dir) + fileOf (x + dirVals dir)"
    using fx fy by simp
  have d: "(dirVals dir = 8 \<or> dirVals dir = -8)
           \<or> ((dirVals dir = 1 \<or> dirVals dir = -1 \<or> dirVals dir = 9 \<or> dirVals dir = 7
                \<or> dirVals dir = -7 \<or> dirVals dir = -9)
               \<and> \<bar>fileOf (x + dirVals dir) - fileOf x\<bar> = 1)"
    using assms(3) by (cases dir) simp_all
  from step_arith [OF e _ _ _ _ d] fx fy show ?thesis by simp
qed

lemma attackRay_step:
  assumes "onBoard x" "onBoard (x + dirVals dir)"
    and "dir \<noteq> dN \<and> dir \<noteq> dS \<longrightarrow> \<bar>fileOf (x + dirVals dir) - fileOf x\<bar> = 1"
  shows "attackRay gs c (oppositeDir dir) ty x
         = (case board_get (board gs) x of
              Some p \<Rightarrow> pcolor p = c \<and> (ptype p = ty \<or> ptype p = CHR ''q'')
            | None \<Rightarrow> attackRay gs c (oppositeDir dir) ty (x - dirVals dir))"
  using step_no_wrap [OF assms] assms(1)
  by (subst attackRay.simps) (simp add: dirVals_opposite Let_def split: option.split)

lemma slideLoop_attack:
  "m \<in> set (slideLoop gs sq p dir t lf) \<Longrightarrow> m_captured m \<noteq> None
   \<Longrightarrow> lf = fileOf (t - dirVals dir)
   \<Longrightarrow> (onBoard t \<Longrightarrow> (dir \<noteq> dN \<and> dir \<noteq> dS \<longrightarrow> \<bar>fileOf t - fileOf (t - dirVals dir)\<bar> = 1)
        \<Longrightarrow> attackRay gs c (oppositeDir dir) ty (t - dirVals dir))
   \<Longrightarrow> attackRay gs c (oppositeDir dir) ty (m_to m - dirVals dir)"
proof (induction gs sq p dir t lf rule: slideLoop.induct)
  case (1 gs sq p dir t lastFile)
  from "1.prems"(1) have on: "onBoard t"
    by (subst (asm) slideLoop.simps) (auto split: if_splits)
  from "1.prems"(1) on have w: "\<not> (dir \<noteq> dN \<and> dir \<noteq> dS \<and> \<bar>fileOf t - lastFile\<bar> \<noteq> 1)"
    by (subst (asm) slideLoop.simps) (auto simp: Let_def split: if_splits)
  with "1.prems"(3) have acc: "dir \<noteq> dN \<and> dir \<noteq> dS \<longrightarrow> \<bar>fileOf t - fileOf (t - dirVals dir)\<bar> = 1"
    by auto
  have here: "attackRay gs c (oppositeDir dir) ty (t - dirVals dir)"
    using "1.prems"(4) on acc by blast
  show ?case
  proof (cases "board_get (board gs) t")
    case None
    with "1.prems"(1) on w have
      "m = plainMove sq t p None \<or> m \<in> set (slideLoop gs sq p dir (t + dirVals dir) (fileOf t))"
      by (subst (asm) slideLoop.simps) (auto simp: Let_def split: if_splits)
    with "1.prems"(2) have in': "m \<in> set (slideLoop gs sq p dir (t + dirVals dir) (fileOf t))"
      by (auto simp: plainMove_def)
    have inv: "attackRay gs c (oppositeDir dir) ty (t + dirVals dir - dirVals dir)"
      if "onBoard (t + dirVals dir)"
         "dir \<noteq> dN \<and> dir \<noteq> dS \<longrightarrow> \<bar>fileOf (t + dirVals dir) - fileOf (t + dirVals dir - dirVals dir)\<bar> = 1"
    proof -
      from that(2) have s: "dir \<noteq> dN \<and> dir \<noteq> dS \<longrightarrow> \<bar>fileOf (t + dirVals dir) - fileOf t\<bar> = 1"
        by simp
      show ?thesis
        using attackRay_step [OF on that(1) s, of gs c ty] None here by simp
    qed
    show ?thesis
      using "1.IH" [OF _ refl w None in' "1.prems"(2) _ inv] on by simp
  next
    case (Some target)
    with "1.prems"(1) on w have "m = plainMove sq t p (Some target)"
      by (subst (asm) slideLoop.simps) (auto simp: Let_def split: if_splits)
    then have "m_to m = t" by (simp add: plainMove_def)
    with here show ?thesis by simp
  qed
qed


lemma attacked_by_ray:
  assumes "attackRay gs c dir (dirType dir) (sq + dirVals dir)"
  shows "isSquareAttacked gs sq c"
proof -
  have "(dir, dirType dir) \<in> set [(dN, CHR ''r''), (dS, CHR ''r''), (dE, CHR ''r''), (dW, CHR ''r''),
            (dNE, CHR ''b''), (dNW, CHR ''b''), (dSE, CHR ''b''), (dSW, CHR ''b'')]"
    by (cases dir) simp_all
  with assms have "list_ex (\<lambda>(dir, ty). attackRay gs c dir ty (sq + dirVals dir))
           [(dN, CHR ''r''), (dS, CHR ''r''), (dE, CHR ''r''), (dW, CHR ''r''),
            (dNE, CHR ''b''), (dNW, CHR ''b''), (dSE, CHR ''b''), (dSW, CHR ''b'')]"
    unfolding list_ex_iff by blast
  then show ?thesis unfolding isSquareAttacked_def by blast
qed

lemma generateSlidingMoves_attack:
  assumes m: "m \<in> set (generateSlidingMoves gs sq p dirs)" and cap: "m_captured m \<noteq> None"
    and on: "onBoard sq" and p: "board_get (board gs) sq = Some p"
    and ty: "\<And>dir. dir \<in> set dirs \<Longrightarrow> ptype p = dirType dir \<or> ptype p = CHR ''q''"
  shows "isSquareAttacked gs (m_to m) (pcolor p)"
proof -
  from m obtain dir where dir: "dir \<in> set dirs"
    and ml: "m \<in> set (slideLoop gs sq p dir (sq + dirVals dir) (fileOf sq))"
    by (auto simp: generateSlidingMoves_def)
  have dt: "dirType (oppositeDir dir) = dirType dir" by (cases dir) simp_all
  have inv: "attackRay gs (pcolor p) (oppositeDir dir) (dirType dir) (sq + dirVals dir - dirVals dir)"
    if "onBoard (sq + dirVals dir)"
       "dir \<noteq> dN \<and> dir \<noteq> dS \<longrightarrow> \<bar>fileOf (sq + dirVals dir) - fileOf (sq + dirVals dir - dirVals dir)\<bar> = 1"
  proof -
    from that(2) have s: "dir \<noteq> dN \<and> dir \<noteq> dS \<longrightarrow> \<bar>fileOf (sq + dirVals dir) - fileOf sq\<bar> = 1"
      by simp
    show ?thesis
      using attackRay_step [OF on that(1) s, of gs "pcolor p" "dirType dir"] p ty [OF dir] by simp
  qed
  have "attackRay gs (pcolor p) (oppositeDir dir) (dirType dir) (m_to m - dirVals dir)"
    by (rule slideLoop_attack [OF ml cap _ inv]) simp_all
  then have "attackRay gs (pcolor p) (oppositeDir dir) (dirType (oppositeDir dir))
               (m_to m + dirVals (oppositeDir dir))"
    by (simp add: dt dirVals_opposite)
  then show ?thesis by (rule attacked_by_ray)
qed

lemma stepMove_attack:
  assumes m: "m \<in> set (stepMove gs sq p reach d)"
    and on: "onBoard sq" and p: "board_get (board gs) sq = Some p"
  shows "stepAttacks gs (m_to m) (pcolor p) (ptype p) reach (- d)"
proof -
  from m have t: "m_to m = sq + d" and a: "\<not> \<bar>fileOf sq - fileOf (sq + d)\<bar> > reach"
    by (auto simp: stepMove_def Let_def plainMove_def split: if_splits)
  show ?thesis
    using t a on p by (simp add: stepAttacks_def Let_def holds_def abs_minus_commute)
qed

lemma generateKnightMoves_attack:
  assumes m: "m \<in> set (generateKnightMoves gs sq p)"
    and on: "onBoard sq" and p: "board_get (board gs) sq = Some p" and ty: "ptype p = CHR ''n''"
  shows "isSquareAttacked gs (m_to m) (pcolor p)"
proof -
  from m obtain d where d: "d \<in> set [17, 15, 10, 6, -6, -10, -15, -17 :: int]"
    and ms: "m \<in> set (stepMove gs sq p 2 d)"
    by (auto simp: generateKnightMoves_def)
  from d have "- d \<in> set [17, 15, 10, 6, -6, -10, -15, -17 :: int]" by auto
  with stepMove_attack [OF ms on p] ty
  have "list_ex (stepAttacks gs (m_to m) (pcolor p) CHR ''n'' 2) [17, 15, 10, 6, -6, -10, -15, -17]"
    unfolding list_ex_iff by auto
  then show ?thesis unfolding isSquareAttacked_def by blast
qed

lemma king_step_or_castle:
  assumes "m \<in> set (generateKingMoves gs sq p)"
  shows "m \<in> set (concat (map (stepMove gs sq p 1) [1, -1, 8, -8, 9, 7, -7, -9]))
         \<or> m_captured m = None"
proof -
  let ?b = "board gs" and ?c = "castling gs"
  let ?castles =
    "if pcolor p = W then
       (if wks ?c \<and> board_get ?b 5 = None \<and> board_get ?b 6 = None
        then [castleMove sq 6 p] else [])
       @ (if wqs ?c \<and> board_get ?b 1 = None \<and> board_get ?b 2 = None \<and> board_get ?b 3 = None
          then [castleMove sq 2 p] else [])
     else
       (if bks ?c \<and> board_get ?b 61 = None \<and> board_get ?b 62 = None
        then [castleMove sq 62 p] else [])
       @ (if bqs ?c \<and> board_get ?b 57 = None \<and> board_get ?b 58 = None \<and> board_get ?b 59 = None
          then [castleMove sq 58 p] else [])"
  have g: "generateKingMoves gs sq p
           = concat (map (stepMove gs sq p 1) [1, -1, 8, -8, 9, 7, -7, -9]) @ ?castles"
    by (simp only: generateKingMoves_def Let_def)
  have c: "m_captured m = None" if "m \<in> set ?castles"
    using that by (auto simp: castleMove_def plainMove_def split: if_splits)
  from assms have "m \<in> set (concat (map (stepMove gs sq p 1) [1, -1, 8, -8, 9, 7, -7, -9]))
      \<or> m \<in> set ?castles"
    unfolding g by (simp only: set_append Un_iff)
  then show ?thesis
  proof
    assume "m \<in> set (concat (map (stepMove gs sq p 1) [1, -1, 8, -8, 9, 7, -7, -9]))"
    then show ?thesis by (rule disjI1)
  next
    assume "m \<in> set ?castles"
    then have "m_captured m = None" by (rule c)
    then show ?thesis by (rule disjI2)
  qed
qed

lemma generateKingMoves_attack:
  assumes m: "m \<in> set (generateKingMoves gs sq p)" and cap: "m_captured m \<noteq> None"
    and on: "onBoard sq" and p: "board_get (board gs) sq = Some p" and ty: "ptype p = CHR ''k''"
  shows "isSquareAttacked gs (m_to m) (pcolor p)"
proof -
  from king_step_or_castle [OF m] cap
  have "m \<in> set (concat (map (stepMove gs sq p 1) [1, -1, 8, -8, 9, 7, -7, -9]))" by simp
  then obtain d where d: "d \<in> set [1, -1, 8, -8, 9, 7, -7, -9 :: int]"
    and ms: "m \<in> set (stepMove gs sq p 1 d)"
    by auto
  from d have "- d \<in> set [1, -1, 8, -8, 9, 7, -7, -9 :: int]" by auto
  with stepMove_attack [OF ms on p] ty
  have "list_ex (stepAttacks gs (m_to m) (pcolor p) CHR ''k'' 1) [1, -1, 8, -8, 9, 7, -7, -9]"
    unfolding list_ex_iff by auto
  then show ?thesis unfolding isSquareAttacked_def by blast
qed

lemma pawnCapture_attack:
  assumes m: "m \<in> set (pawnCapture gs sq p d)"
    and on: "onBoard sq" and p: "board_get (board gs) sq = Some p" and ty: "ptype p = CHR ''p''"
    and d: "(pcolor p = W \<and> (d = 7 \<or> d = 9)) \<or> (pcolor p \<noteq> W \<and> (d = -7 \<or> d = -9))"
  shows "isSquareAttacked gs (m_to m) (pcolor p)"
proof -
  from m have a: "\<bar>fileOf (sq + d) - fileOf sq\<bar> = 1"
    by (auto simp: pawnCapture_def Let_def split: if_splits)
  from m have t: "m_to m = sq + d"
    by (auto simp: pawnCapture_def Let_def plainMove_def promotionMoves_def
          split: if_splits option.splits)
  have pa: "pawnAttacks gs (m_to m) (pcolor p) sq"
    using a t on p ty by (simp add: pawnAttacks_def holds_def)
  have "sq \<in> set (if pcolor p = W then [m_to m - 7, m_to m - 9] else [m_to m + 7, m_to m + 9])"
    using d t by auto
  with pa have "list_ex (pawnAttacks gs (m_to m) (pcolor p))
      (if pcolor p = W then [m_to m - 7, m_to m - 9] else [m_to m + 7, m_to m + 9])"
    unfolding list_ex_iff by blast
  then show ?thesis unfolding isSquareAttacked_def by blast
qed

lemma generatePawnMoves_attack:
  assumes m: "m \<in> set (generatePawnMoves gs sq p)" and cap: "m_captured m \<noteq> None"
    and on: "onBoard sq" and p: "board_get (board gs) sq = Some p" and ty: "ptype p = CHR ''p''"
  shows "isSquareAttacked gs (m_to m) (pcolor p)"
proof -
  from m cap obtain d where "m \<in> set (pawnCapture gs sq p d)"
    "(pcolor p = W \<and> (d = 7 \<or> d = 9)) \<or> (pcolor p \<noteq> W \<and> (d = -7 \<or> d = -9))"
    by (auto simp: generatePawnMoves_def Let_def plainMove_def promotionMoves_def split: if_splits)
  then show ?thesis using pawnCapture_attack on p ty by blast
qed

text \<open>
  Claim C5. For every game state, legal or not, and every move of
  \<open>generatePseudoLegalMoves\<close> whose \<open>captured\<close> field is a piece (captures by any
  piece, promotions with capture, en passant), \<open>isSquareAttacked\<close> reports the
  destination square as attacked by the side to move.
\<close>

theorem capture_destination_attacked:
  assumes "m \<in> set (generatePseudoLegalMoves gs)" "m_captured m \<noteq> None"
  shows "isSquareAttacked gs (m_to m) (turn gs)"
proof -
  from assms(1) obtain sq where sq: "0 \<le> sq" "sq \<le> 63" and m: "m \<in> set (pieceMoves gs sq)"
    by (auto simp: generatePseudoLegalMoves_def)
  from sq have on: "onBoard sq" by (simp add: onBoard_def)
  from m obtain p where p: "board_get (board gs) sq = Some p"
    by (cases "board_get (board gs) sq") (auto simp: pieceMoves_def)
  from m p have c: "pcolor p = turn gs"
    by (auto simp: pieceMoves_def split: if_splits)
  from m p c consider
      (pawn) "ptype p = CHR ''p''" "m \<in> set (generatePawnMoves gs sq p)"
    | (knight) "ptype p = CHR ''n''" "m \<in> set (generateKnightMoves gs sq p)"
    | (bishop) "ptype p = CHR ''b''" "m \<in> set (generateSlidingMoves gs sq p [dNE, dNW, dSE, dSW])"
    | (rook) "ptype p = CHR ''r''" "m \<in> set (generateSlidingMoves gs sq p [dN, dS, dE, dW])"
    | (queen) "ptype p = CHR ''q''"
        "m \<in> set (generateSlidingMoves gs sq p [dN, dS, dE, dW, dNE, dNW, dSE, dSW])"
    | (king) "ptype p = CHR ''k''" "m \<in> set (generateKingMoves gs sq p)"
    by (auto simp: pieceMoves_def split: if_splits)
  then have "isSquareAttacked gs (m_to m) (pcolor p)"
  proof cases
    case pawn
    then show ?thesis using generatePawnMoves_attack assms(2) on p by blast
  next
    case knight
    then show ?thesis using generateKnightMoves_attack on p by blast
  next
    case bishop
    show ?thesis
      by (rule generateSlidingMoves_attack [OF bishop(2) assms(2) on p]) (use bishop(1) in auto)
  next
    case rook
    show ?thesis
      by (rule generateSlidingMoves_attack [OF rook(2) assms(2) on p]) (use rook(1) in auto)
  next
    case queen
    show ?thesis
      by (rule generateSlidingMoves_attack [OF queen(2) assms(2) on p]) (use queen(1) in auto)
  next
    case king
    then show ?thesis using generateKingMoves_attack assms(2) on p by blast
  qed
  with c show ?thesis by simp
qed

lemma en_passant_move_pseudo_legal:
  "\<lparr>m_from = 36, m_to = 43, m_piece = \<lparr>ptype = CHR ''p'', pcolor = W\<rparr>,
     m_captured = Some \<lparr>ptype = CHR ''p'', pcolor = B\<rparr>, m_promotion = None,
     m_isEnPassant = True, m_isCastling = False\<rparr>
   \<in> set (generatePseudoLegalMoves
        (projr (fenToGameState ''rnbqkbnr/ppp1pppp/8/3pP3/8/8/PPPP1PPP/RNBQKBNR w KQkq d6 0 3'')))"
  by code_simp

theorem capture_destination_attacked_witness:
  "\<lparr>m_from = 36, m_to = 43, m_piece = \<lparr>ptype = CHR ''p'', pcolor = W\<rparr>,
     m_captured = Some \<lparr>ptype = CHR ''p'', pcolor = B\<rparr>, m_promotion = None,
     m_isEnPassant = True, m_isCastling = False\<rparr>
   \<in> set (generatePseudoLegalMoves
        (projr (fenToGameState ''rnbqkbnr/ppp1pppp/8/3pP3/8/8/PPPP1PPP/RNBQKBNR w KQkq d6 0 3'')))
   \<and> isSquareAttacked
        (projr (fenToGameState ''rnbqkbnr/ppp1pppp/8/3pP3/8/8/PPPP1PPP/RNBQKBNR w KQkq d6 0 3''))
        43
        (turn (projr (fenToGameState ''rnbqkbnr/ppp1pppp/8/3pP3/8/8/PPPP1PPP/RNBQKBNR w KQkq d6 0 3'')))"
  using capture_destination_attacked [OF en_passant_move_pseudo_legal] en_passant_move_pseudo_legal
  by simp

section \<open>Properties of the search worker\<close>

text \<open>
  Claim C2 does not hold of the code. In the position
  \<open>8/8/8/8/8/6k1/r7/7K w - - 0 1\<close> white has exactly one legal move, the king from
  h1 to g1, after which the black rook mates on a1. At depth 2 the search values that
  move at minus infinity, the strict comparison with the initial best value (minus
  infinity as well) fails, and the worker posts \<open>null\<close> although a legal move exists.
\<close>

theorem search_posts_null_with_legal_move:
  "map (\<lambda>m. (m_from m, m_to m))
     (generateLegalMoves (projr (fenToGameState ''8/8/8/8/8/6k1/r7/7K w - - 0 1''))) = [(7, 6)]
   \<and> onmessage ''8/8/8/8/8/6k1/r7/7K w - - 0 1'' 2 W = Inr None"
  by code_simp

section \<open>Properties of the server engine\<close>

subsection \<open>The heap and the contents of the states\<close>

lemma applyMoveRef_value:
  assumes "r < length h"
  shows "applyMoveRef h r m tm =
         (case applyMove (h ! r) m tm of
            Inl e \<Rightarrow> (Inl e, h @ [h ! r])
          | Inr v \<Rightarrow> (Inr (length h), h @ [v]))"
  using assms by (simp add: applyMoveRef_def jsonCopy_def split: sum.splits)

lemma filterLegalRef_value:
  "r < length h \<Longrightarrow>
   fst (filterLegalRef h r ms) = filterLegal (h ! r) ms
   \<and> (\<exists>g. snd (filterLegalRef h r ms) = h @ g)"
proof (induction ms arbitrary: h)
  case Nil
  then show ?case by simp
next
  case (Cons m ms)
  show ?case
  proof (cases "applyMove (h ! r) m True")
    case (Inl e)
    then show ?thesis using Cons.prems by (simp add: applyMoveRef_value)
  next
    case (Inr v)
    let ?h1 = "h @ [v]"
    from Cons.prems have r1: "r < length ?h1" and e1: "?h1 ! r = h ! r"
      by (simp_all add: nth_append)
    from Cons.IH [OF r1] obtain g where
      f: "fst (filterLegalRef ?h1 r ms) = filterLegal (h ! r) ms"
      and g: "snd (filterLegalRef ?h1 r ms) = ?h1 @ g"
      using e1 by auto
    show ?thesis
      using Inr Cons.prems f g e1
      by (cases "filterLegalRef ?h1 r ms")
         (auto simp: applyMoveRef_value Let_def split: sum.splits)
  qed
qed

lemma getLegalMovesRef_value:
  assumes "r < length h"
  shows "fst (getLegalMovesRef h r) = getLegalMoves (h ! r)"
    and "\<exists>g. snd (getLegalMovesRef h r) = h @ g"
  using filterLegalRef_value [OF assms] by (simp_all add: getLegalMovesRef_def getLegalMoves_def)


lemma getLegalMovesRef_cases:
  assumes "r < length h"
  obtains g where "getLegalMovesRef h r = (getLegalMoves (h ! r), h @ g)"
  using getLegalMovesRef_value [OF assms] by (metis prod.collapse)

lemma readResult_failure: "readResult h (failure msg) = failure msg"
  by (simp add: readResult_def failure_def)

lemma makeMoveRef_value:
  assumes r: "r < length h"
  shows "map_sum id (readResult (snd (makeMoveRef h r pid frm t promo)))
           (fst (makeMoveRef h r pid frm t promo))
         = cg_makeMove (h ! r) pid frm t promo
         \<and> (\<exists>g. snd (makeMoveRef h r pid frm t promo) = h @ g)"
proof -
  let ?gs = "h ! r"
  let ?P = "\<lambda>m. cx (cm_from m) = cx frm \<and> cy (cm_from m) = cy frm
                  \<and> cx (cm_to m) = cx t \<and> cy (cm_to m) = cy t
                  \<and> (cm_promotion m = None \<or> cm_promotion m = promo)"
  show ?thesis
  proof (cases "gameOver ?gs \<or> (pl_white (players ?gs) \<noteq> pid \<and> pl_black (players ?gs) \<noteq> pid)
                \<or> (pl_white (players ?gs) = pid \<and> sideToMove ?gs \<noteq> white)
                \<or> (pl_black (players ?gs) = pid \<and> sideToMove ?gs \<noteq> black)")
    case True
    then show ?thesis
      by (auto simp: makeMoveRef_def cg_makeMove_def Let_def readResult_failure)
  next
    case False
    from getLegalMovesRef_cases [OF r] obtain g1 where
      l1: "getLegalMovesRef h r = (getLegalMoves ?gs, h @ g1)" .
    let ?h1 = "h @ g1"
    have r1: "r < length ?h1" and e1: "?h1 ! r = ?gs" using r by (simp_all add: nth_append)
    show ?thesis
    proof (cases "getLegalMoves ?gs")
      case (Inl e)
      then show ?thesis using False l1
        by (auto simp: makeMoveRef_def cg_makeMove_def Let_def)
    next
      case (Inr ms)
      show ?thesis
      proof (cases "find ?P ms")
        case None
        then show ?thesis using False l1 Inr
          by (auto simp: makeMoveRef_def cg_makeMove_def Let_def readResult_failure)
      next
        case (Some mv)
        show ?thesis
        proof (cases "applyMove ?gs mv False")
          case (Inl e)
          then have "applyMoveRef ?h1 r mv False = (Inl e, ?h1 @ [?gs])"
            using applyMoveRef_value [OF r1, of mv False] e1 by simp
          then show ?thesis using False l1 Inr Some Inl
            by (auto simp: makeMoveRef_def cg_makeMove_def Let_def)
        next
          case (Inr v)
          let ?n = "length ?h1"
          let ?h2 = "?h1 @ [v]"
          have a2: "applyMoveRef ?h1 r mv False = (Inr ?n, ?h2)"
            using applyMoveRef_value [OF r1, of mv False] e1 Inr by simp
          have n2: "?n < length ?h2" and v2: "?h2 ! ?n = v" by simp_all
          from getLegalMovesRef_cases [OF n2] obtain g3 where
            l3: "getLegalMovesRef ?h2 ?n = (getLegalMoves v, ?h2 @ g3)" using v2 by metis
          let ?h3 = "?h2 @ g3"
          have n3: "?n < length ?h3" and v3: "?h3 ! ?n = v" and e3: "?h3 ! r = ?gs"
            using r by (simp_all add: nth_append)
          show ?thesis
          proof (cases "getLegalMoves v")
            case (Inl e)
            then show ?thesis using False l1 \<open>getLegalMoves ?gs = Inr ms\<close> Some a2 l3 Inr
              by (auto simp: makeMoveRef_def cg_makeMove_def Let_def)
          next
            case nx: (Inr nextMoves)
            have m: "makeMoveRef h r pid frm t promo
                  = (Inr \<lparr>success = True, gameState = Some ?n, r_error = None\<rparr>,
                     ?h3[?n := classifyState ?gs v nextMoves])"
              using False l1 \<open>getLegalMoves ?gs = Inr ms\<close> Some a2 l3 nx v3 e3
              by (auto simp: makeMoveRef_def Let_def simp del: nth_append_length)
            have c: "cg_makeMove ?gs pid frm t promo
                  = Inr \<lparr>success = True, gameState = Some (classifyState ?gs v nextMoves),
                         r_error = None\<rparr>"
              using False \<open>getLegalMoves ?gs = Inr ms\<close> Some Inr nx
              by (auto simp: cg_makeMove_def Let_def)
            have x: "?h3[?n := classifyState ?gs v nextMoves]
                     = h @ (g1 @ classifyState ?gs v nextMoves # g3)"
              by (simp add: list_update_append)
            show ?thesis
              unfolding m c
            proof (rule conjI)
              show "\<exists>g. snd (Inr \<lparr>success = True, gameState = Some ?n, r_error = None\<rparr>,
                      ?h3[?n := classifyState ?gs v nextMoves]) = h @ g"
                using x by auto
            qed (simp add: readResult_def x nth_append)
          qed
        qed
      qed
    qed
  qed
qed


lemma makeMoveRef_keeps:
  assumes "r < length h"
  shows "snd (makeMoveRef h r pid frm t promo) ! r = h ! r"
    and "r < length (snd (makeMoveRef h r pid frm t promo))"
  using makeMoveRef_value [OF assms, of pid frm t promo] assms by (auto simp: nth_append)

lemma rejection_shape:
  assumes "fst (makeMoveRef h r pid frm t promo) = Inr res" "\<not> success res"
  shows "r_error res \<noteq> None \<and> gameState res = None"
  using assms
  by (auto simp: makeMoveRef_def Let_def failure_def split: sum.splits option.splits if_splits prod.splits)

lemma readResult_rejection:
  assumes "readResult h1 res1 = readResult h2 res2" "gameState res2 = None"
  shows "res1 = res2"
  using assms by (cases res1; cases res2) (auto simp: readResult_def)

subsection \<open>Rejected submissions\<close>

text \<open>
  Claim C7. Let \<open>r\<close> refer to a game state of the heap whose board is eight by eight.
  Whenever \<open>makeMove\<close> rejects a submission, that is, returns a result whose \<open>success\<close>
  is false, the result carries an error and no new state, the game state at \<open>r\<close> has
  the contents it had before the call, and submitting the same input again returns the
  same result and leaves the contents the same once more. The three reasons of the claim
  do reject: a finished game with \<open>Game is over\<close>, a player moving out of turn with
  \<open>Not your turn\<close>, and a submission that matches no legal move with \<open>Illegal move\<close>.
\<close>

theorem rejected_move_unchanged:
  assumes r: "r < length h" and b: "eightByEight (h ! r)"
  shows
   "(fst (makeMoveRef h r pid frm t promo) = Inr res \<and> \<not> success res \<longrightarrow>
       r_error res \<noteq> None \<and> gameState res = None
       \<and> snd (makeMoveRef h r pid frm t promo) ! r = h ! r
       \<and> fst (makeMoveRef (snd (makeMoveRef h r pid frm t promo)) r pid frm t promo) = Inr res
       \<and> snd (makeMoveRef (snd (makeMoveRef h r pid frm t promo)) r pid frm t promo) ! r = h ! r)
    \<and> (gameOver (h ! r) \<longrightarrow>
         fst (makeMoveRef h r pid frm t promo) = Inr (failure ''Game is over''))
    \<and> (\<not> gameOver (h ! r)
         \<and> ((pl_white (players (h ! r)) = pid \<and> sideToMove (h ! r) \<noteq> white)
            \<or> (pl_black (players (h ! r)) = pid \<and> sideToMove (h ! r) \<noteq> black)) \<longrightarrow>
         fst (makeMoveRef h r pid frm t promo) = Inr (failure ''Not your turn''))
    \<and> (\<not> gameOver (h ! r)
         \<and> (pl_white (players (h ! r)) = pid \<or> pl_black (players (h ! r)) = pid)
         \<and> (pl_white (players (h ! r)) = pid \<longrightarrow> sideToMove (h ! r) = white)
         \<and> (pl_black (players (h ! r)) = pid \<longrightarrow> sideToMove (h ! r) = black)
         \<and> getLegalMoves (h ! r) = Inr ms
         \<and> find (\<lambda>m. cx (cm_from m) = cx frm \<and> cy (cm_from m) = cy frm
                     \<and> cx (cm_to m) = cx t \<and> cy (cm_to m) = cy t
                     \<and> (cm_promotion m = None \<or> cm_promotion m = promo)) ms = None \<longrightarrow>
         fst (makeMoveRef h r pid frm t promo) = Inr (failure ''Illegal move''))"
proof -
  let ?M = "makeMoveRef h r pid frm t promo"
  let ?h' = "snd ?M"
  let ?M' = "makeMoveRef ?h' r pid frm t promo"
  note k = makeMoveRef_keeps [OF r, of pid frm t promo]
  note k' = makeMoveRef_keeps [OF k(2), of pid frm t promo]
  have A: "r_error res \<noteq> None \<and> gameState res = None \<and> ?h' ! r = h ! r
           \<and> fst ?M' = Inr res \<and> snd ?M' ! r = h ! r"
    if f: "fst ?M = Inr res" and ns: "\<not> success res"
  proof -
    note sh = rejection_shape [OF f ns]
    have v: "cg_makeMove (h ! r) pid frm t promo = Inr (readResult ?h' res)"
      using makeMoveRef_value [OF r, of pid frm t promo] f by simp
    have "map_sum id (readResult (snd ?M')) (fst ?M') = Inr (readResult ?h' res)"
      using makeMoveRef_value [OF k(2), of pid frm t promo] k(1) v by simp
    then obtain res' where f': "fst ?M' = Inr res'"
      and e: "readResult (snd ?M') res' = readResult ?h' res"
      by (cases "fst ?M'") auto
    from readResult_rejection [OF e] sh have "res' = res" by simp
    with f' sh k k' show ?thesis by simp
  qed
  have B: "fst ?M = Inr (failure ''Game is over'')" if "gameOver (h ! r)"
    using that by (simp add: makeMoveRef_def)
  have C: "fst ?M = Inr (failure ''Not your turn'')"
    if "\<not> gameOver (h ! r)" "(pl_white (players (h ! r)) = pid \<and> sideToMove (h ! r) \<noteq> white)
            \<or> (pl_black (players (h ! r)) = pid \<and> sideToMove (h ! r) \<noteq> black)"
    using that by (auto simp: makeMoveRef_def Let_def)
  have D: "fst ?M = Inr (failure ''Illegal move'')"
    if "\<not> gameOver (h ! r)" "pl_white (players (h ! r)) = pid \<or> pl_black (players (h ! r)) = pid"
       "pl_white (players (h ! r)) = pid \<longrightarrow> sideToMove (h ! r) = white"
       "pl_black (players (h ! r)) = pid \<longrightarrow> sideToMove (h ! r) = black"
       "getLegalMoves (h ! r) = Inr ms"
       "find (\<lambda>m. cx (cm_from m) = cx frm \<and> cy (cm_from m) = cy frm
                     \<and> cx (cm_to m) = cx t \<and> cy (cm_to m) = cy t
                     \<and> (cm_promotion m = None \<or> cm_promotion m = promo)) ms = None"
  proof -
    from getLegalMovesRef_cases [OF r] obtain g where
      "getLegalMovesRef h r = (getLegalMoves (h ! r), h @ g)" .
    with that show ?thesis by (auto simp: makeMoveRef_def Let_def)
  qed
  show ?thesis using A B C D by blast
qed

lemma initial_game_eightByEight:
  "eightByEight ([initializeGame ''white-player'' ''black-player''] ! 0)"
  by code_simp

lemma initial_game_illegal_value:
  "cg_makeMove (initializeGame ''white-player'' ''black-player'') ''white-player''
     (coord 4 6) (coord 5 5) None = Inr (failure ''Illegal move'')"
  by code_simp

lemma initial_game_illegal:
  "fst (makeMoveRef [initializeGame ''white-player'' ''black-player''] 0 ''white-player''
          (coord 4 6) (coord 5 5) None) = Inr (failure ''Illegal move'')"
proof -
  let ?M = "makeMoveRef [initializeGame ''white-player'' ''black-player''] 0 ''white-player''
          (coord 4 6) (coord 5 5) None"
  have "map_sum id (readResult (snd ?M)) (fst ?M) = Inr (failure ''Illegal move'')"
    using makeMoveRef_value [of 0 "[initializeGame ''white-player'' ''black-player'']"
        "''white-player''" "coord 4 6" "coord 5 5" None] initial_game_illegal_value
    by simp
  then obtain res where f: "fst ?M = Inr res"
    and e: "readResult (snd ?M) res = failure ''Illegal move''"
    by (cases "fst ?M") auto
  have "res = failure ''Illegal move''"
    by (rule readResult_rejection [of "snd ?M" res "snd ?M"])
       (simp_all add: e readResult_failure, simp add: failure_def)
  with f show ?thesis by simp
qed

theorem rejected_move_unchanged_witness:
  "(0 :: nat) < length [initializeGame ''white-player'' ''black-player'']
   \<and> eightByEight ([initializeGame ''white-player'' ''black-player''] ! 0)
   \<and> fst (makeMoveRef [initializeGame ''white-player'' ''black-player''] 0 ''white-player''
          (coord 4 6) (coord 5 5) None) = Inr (failure ''Illegal move'')
   \<and> \<not> success (failure ''Illegal move'' :: nat MoveResult)
   \<and> r_error (failure ''Illegal move'' :: nat MoveResult) \<noteq> None
   \<and> snd (makeMoveRef [initializeGame ''white-player'' ''black-player''] 0 ''white-player''
          (coord 4 6) (coord 5 5) None) ! 0
       = [initializeGame ''white-player'' ''black-player''] ! 0
   \<and> fst (makeMoveRef (snd (makeMoveRef [initializeGame ''white-player'' ''black-player''] 0
          ''white-player'' (coord 4 6) (coord 5 5) None)) 0 ''white-player''
          (coord 4 6) (coord 5 5) None) = Inr (failure ''Illegal move'')"
proof -
  have l: "(0 :: nat) < length [initializeGame ''white-player'' ''black-player'']"
    by simp
  have ns: "\<not> success (failure ''Illegal move'' :: nat MoveResult)"
    by (simp add: failure_def)
  show ?thesis
    using rejected_move_unchanged [OF l initial_game_eightByEight,
        of "''white-player''" "coord 4 6" "coord 5 5" None "failure ''Illegal move''"]
      initial_game_illegal initial_game_eightByEight l ns
    by blast
qed

subsection \<open>Draw by repetition\<close>

text \<open>
  Playing a list of moves on the heap gives the state that playing it on the contents
  gives; each move of the game above is accepted and leads to the expected state.
\<close>

lemma makeMoveRef_ref:
  assumes r: "r < length h"
    and mk: "makeMoveRef h r pid frm t promo = (Inr res, h')"
    and gs: "gameState res = Some n"
  shows "n < length h'"
proof -
  let ?gs = "h ! r"
  let ?P = "\<lambda>m. cx (cm_from m) = cx frm \<and> cy (cm_from m) = cy frm
                  \<and> cx (cm_to m) = cx t \<and> cy (cm_to m) = cy t
                  \<and> (cm_promotion m = None \<or> cm_promotion m = promo)"
  show ?thesis
  proof (cases "gameOver ?gs \<or> (pl_white (players ?gs) \<noteq> pid \<and> pl_black (players ?gs) \<noteq> pid)
                \<or> (pl_white (players ?gs) = pid \<and> sideToMove ?gs \<noteq> white)
                \<or> (pl_black (players ?gs) = pid \<and> sideToMove ?gs \<noteq> black)")
    case True
    then show ?thesis using mk gs
      by (auto simp: makeMoveRef_def Let_def failure_def split: if_splits)
  next
    case False
    from getLegalMovesRef_cases [OF r] obtain g1 where
      l1: "getLegalMovesRef h r = (getLegalMoves ?gs, h @ g1)" .
    let ?h1 = "h @ g1"
    have r1: "r < length ?h1" and e1: "?h1 ! r = ?gs" using r by (simp_all add: nth_append)
    show ?thesis
    proof (cases "getLegalMoves ?gs")
      case (Inl e)
      then show ?thesis using False l1 mk
        by (auto simp: makeMoveRef_def Let_def)
    next
      case (Inr ms)
      show ?thesis
      proof (cases "find ?P ms")
        case None
        then show ?thesis using False l1 Inr mk gs
          by (auto simp: makeMoveRef_def Let_def failure_def)
      next
        case (Some mv)
        show ?thesis
        proof (cases "applyMove ?gs mv False")
          case (Inl e)
          then have "applyMoveRef ?h1 r mv False = (Inl e, ?h1 @ [?gs])"
            using applyMoveRef_value [OF r1, of mv False] e1 by simp
          then show ?thesis using False l1 Inr Some Inl mk
            by (auto simp: makeMoveRef_def Let_def)
        next
          case (Inr v)
          let ?n = "length ?h1"
          let ?h2 = "?h1 @ [v]"
          have a2: "applyMoveRef ?h1 r mv False = (Inr ?n, ?h2)"
            using applyMoveRef_value [OF r1, of mv False] e1 Inr by simp
          have n2: "?n < length ?h2" and v2: "?h2 ! ?n = v" by simp_all
          from getLegalMovesRef_cases [OF n2] obtain g3 where
            l3: "getLegalMovesRef ?h2 ?n = (getLegalMoves v, ?h2 @ g3)" using v2 by metis
          show ?thesis
          proof (cases "getLegalMoves v")
            case (Inl e)
            then show ?thesis using False l1 \<open>getLegalMoves ?gs = Inr ms\<close> Some a2 l3 Inr mk
              by (auto simp: makeMoveRef_def Let_def)
          next
            case nx: (Inr nextMoves)
            have "n = ?n \<and> length h' = length (?h2 @ g3)"
              using False l1 \<open>getLegalMoves ?gs = Inr ms\<close> Some a2 l3 nx mk gs
              by (auto simp: makeMoveRef_def Let_def simp del: nth_append_length)
            then show ?thesis by simp
          qed
        qed
      qed
    qed
  qed
qed

lemma playMovesRef_value: "r < length h \<Longrightarrow> playMovesRef h r ms = playMoves (h ! r) ms"
proof (induction ms arbitrary: h r)
  case Nil
  then show ?case by simp
next
  case (Cons a ms)
  obtain pid frm t where a: "a = (pid, frm, t)" by (cases a) auto
  obtain x h' where m: "makeMoveRef h r pid frm t None = (x, h')" by (cases "makeMoveRef h r pid frm t None")
  from makeMoveRef_value [OF Cons.prems, of pid frm t None] m
  have v: "map_sum id (readResult h') x = cg_makeMove (h ! r) pid frm t None" by simp
  show ?case
  proof (cases x)
    case (Inl e)
    then show ?thesis using a m v by (auto split: sum.splits)
  next
    case (Inr res)
    show ?thesis
    proof (cases "gameState res")
      case None
      then show ?thesis using a m v Inr
        by (cases "cg_makeMove (h ! r) pid frm t None") (auto simp: readResult_def)
    next
      case (Some n)
      have "n < length h'" using makeMoveRef_ref [OF Cons.prems _ Some] m Inr by simp
      from Cons.IH [OF this] show ?thesis using a m v Inr Some
        by (cases "cg_makeMove (h ! r) pid frm t None") (auto simp: readResult_def)
    qed
  qed
qed

lemma playMoves_append:
  "playMoves gs (xs @ ys) = (case playMoves gs xs of None \<Rightarrow> None | Some gs' \<Rightarrow> playMoves gs' ys)"
  by (induction gs xs rule: playMoves.induct) (auto split: sum.splits option.splits)

lemma dance_positions:
  "draw dance8 = False \<and> gameOver dance8 = False
   \<and> count_list (map getPosition (cg_fen dance0 # cg_history dance8)) (getPosition (cg_fen dance8)) = 3"
  by code_simp

lemma dance_step1:
  "cg_makeMove dance0 ''w'' (coord 6 7) (coord 5 5) None = accepted dance1"
  by code_simp

lemma dance_step2:
  "cg_makeMove dance1 ''b'' (coord 6 0) (coord 5 2) None = accepted dance2"
  by code_simp

lemma dance_step3:
  "cg_makeMove dance2 ''w'' (coord 5 5) (coord 6 7) None = accepted dance3"
  by code_simp

lemma dance_step4:
  "cg_makeMove dance3 ''b'' (coord 5 2) (coord 6 0) None = accepted dance4"
  by code_simp

lemma dance_step5:
  "cg_makeMove dance4 ''w'' (coord 6 7) (coord 5 5) None = accepted dance5"
  by code_simp

lemma dance_step6:
  "cg_makeMove dance5 ''b'' (coord 6 0) (coord 5 2) None = accepted dance6"
  by code_simp

lemma dance_step7:
  "cg_makeMove dance6 ''w'' (coord 5 5) (coord 6 7) None = accepted dance7"
  by code_simp

lemma dance_step8:
  "cg_makeMove dance7 ''b'' (coord 5 2) (coord 6 0) None = accepted dance8"
  by code_simp

lemma dance_first_round: "playMoves dance0 knightsOutAndBack = Some dance4"
  by (simp add: knightsOutAndBack_def accepted_def dance_step1 dance_step2 dance_step3 dance_step4)

lemma dance_second_round: "playMoves dance4 knightsOutAndBack = Some dance8"
  by (simp add: knightsOutAndBack_def accepted_def dance_step5 dance_step6 dance_step7 dance_step8)

lemma dance_played:
  "playMovesRef [dance0] 0 (knightsOutAndBack @ knightsOutAndBack) = Some dance8"
  using playMovesRef_value [of 0 "[dance0]" "knightsOutAndBack @ knightsOutAndBack"]
  by (simp add: playMoves_append dance_first_round dance_second_round)

text \<open>
  Claim C6 (does not hold of the code). A new game is started and the eight moves
  1. Nf3 Nf6 2. Ng1 Ng8 3. Nf3 Nf6 4. Ng1 Ng8 are submitted in turn; all are accepted. The
  position after the last move (board, side to move, castling rights, en-passant
  target) is the starting position, and it occurs three times among the positions of
  the game, the starting position followed by the positions of \<open>history\<close>. Yet the
  state returned has \<open>draw\<close> and \<open>gameOver\<close> false: \<open>history\<close> begins empty, so the
  starting position is never in it, and \<open>isThreefoldRepetition\<close> finds only one earlier
  occurrence.
\<close>

theorem initial_position_third_time_no_draw:
  "(case playMovesRef [initializeGame ''w'' ''b''] 0 (knightsOutAndBack @ knightsOutAndBack) of
      None \<Rightarrow> False
    | Some s \<Rightarrow>
        count_list (map getPosition (cg_fen (initializeGame ''w'' ''b'') # cg_history s))
                   (getPosition (cg_fen s)) = 3
        \<and> draw s = False \<and> gameOver s = False)"
  using dance_positions dance_played unfolding dance0_def by simp

end
